theory Spec2Isabelle
  imports Complex_Main
begin

section \<open>Data model\<close>

text \<open>
  The optimizers of \<^verbatim>\<open>optimizers.py\<close> are embedded over the real numbers: a tensor is the
  flat list of its entries (its shape never changes), Python's \<^verbatim>\<open>2 / (self.k + 2)\<close> is
  true division, and every exception the code can raise is a value of \<open>error\<close>.
  An elementwise operation on two tensors of different length raises \<open>RuntimeError\<close>
  (broadcasting is left out: the library only accepts a gradient of the parameter's shape).
\<close>

type_synonym tensor = "real list"

datatype error =
    AssertionError
  | KeyError string
  | TypeError
  | ValueError
  | AttributeError
  | RuntimeError
  | ShapeError
  | NumericalError
  | Raised string

text \<open>
  A parameter \<open>p\<close>: \<open>data\<close> is \<^verbatim>\<open>p.data\<close>, \<open>grad\<close> is \<^verbatim>\<open>p.grad\<close> (\<open>None\<close> when absent) and
  \<open>momentum_buffer\<close> is the entry \<^verbatim>\<open>self.state[p]['momentum_buffer']\<close> of the optimizer's
  state, kept with the parameter that keys it (\<open>None\<close> when the key is not in the state).
  The parameters of an optimizer are distinct objects.
\<close>

record param =
  data :: tensor
  grad :: "tensor option"
  momentum_buffer :: "tensor option"

text \<open>
  A parameter group is a dictionary: \<open>params\<close> is its entry \<^verbatim>\<open>'params'\<close>, \<open>hyper\<close> holds
  every other entry. Reading a key that is not there raises \<open>KeyError\<close>.
\<close>

record param_group =
  params :: "param list"
  hyper :: "string \<rightharpoonup> real"

text \<open>
  A closure is code of the caller: it may change the parameters and their gradients
  (it usually recomputes them) and returns the loss, or raises.
\<close>

type_synonym 'l closure = "param_group list \<Rightarrow> param_group list \<times> (error + 'l)"

text \<open>
  An instance of one of the two Frank-Wolfe classes: the counter \<^verbatim>\<open>self.k\<close> and the
  attribute \<^verbatim>\<open>self.param_groups\<close>, which exists only once \<^verbatim>\<open>Optimizer.__init__\<close> has run.
\<close>

record fw_optimizer =
  k :: nat
  param_groups :: "param_group list option"

datatype params_arg = Tensors "param list" | Groups "param_group list"

section \<open>Tensor operations\<close>

definition sign_t :: "tensor \<Rightarrow> tensor" where
  "sign_t xs = map sgn xs"

definition zeros_like :: "tensor \<Rightarrow> tensor" where
  "zeros_like xs = replicate (length xs) 0"

definition mul_t :: "tensor \<Rightarrow> real \<Rightarrow> tensor" where
  "mul_t xs a = map (\<lambda>x. x * a) xs"

text \<open>\<^verbatim>\<open>xs.add_(a, ys)\<close>: \<open>xs + a * ys\<close>, for tensors of one length.\<close>

definition add_t :: "tensor \<Rightarrow> real \<Rightarrow> tensor \<Rightarrow> tensor" where
  "add_t xs a ys = map2 (\<lambda>x y. x + a * y) xs ys"

definition sub_t :: "tensor \<Rightarrow> tensor \<Rightarrow> tensor" where
  "sub_t xs ys = map2 (\<lambda>x y. x - y) xs ys"

definition l1_norm :: "tensor \<Rightarrow> real" where
  "l1_norm xs = sum_list (map abs xs)"

section \<open>Library behaviour the classes rely on\<close>

text \<open>
  \<^verbatim>\<open>torch.optim.Optimizer.__init__(params, defaults)\<close>, as the library documents it: a
  list of tensors becomes one group, an empty list is refused, every group receives the
  defaults for the keys it does not set itself, and the state starts empty.
\<close>

definition Optimizer_init :: "params_arg \<Rightarrow> (string \<rightharpoonup> real) \<Rightarrow> error + param_group list" where
  "Optimizer_init ps defaults =
     (let gs = (case ps of
                  Tensors ts \<Rightarrow> (if ts = [] then [] else [\<lparr>params = ts, hyper = Map.empty\<rparr>])
                | Groups gs \<Rightarrow> gs)
      in if gs = [] then Inl ValueError
         else Inr (map (\<lambda>g. \<lparr>params = map (\<lambda>p. p\<lparr>momentum_buffer := None\<rparr>) (params g),
                              hyper = defaults ++ hyper g\<rparr>) gs))"

text \<open>
  \<^verbatim>\<open>object.__init__(self, *args)\<close> for a class that defines its own \<^verbatim>\<open>__init__\<close>: any
  extra argument is a \<open>TypeError\<close>. The argument is the number of extra arguments.
\<close>

definition object_init :: "nat \<Rightarrow> error + unit" where
  "object_init n_args = (if n_args = 0 then Inr () else Inl TypeError)"

text \<open>A \<^verbatim>\<open>for\<close> loop whose body may raise: the elements before the raise stay changed.\<close>

fun for_each :: "('a \<Rightarrow> 'a \<times> error option) \<Rightarrow> 'a list \<Rightarrow> 'a list \<times> error option" where
  "for_each body [] = ([], None)"
| "for_each body (x # xs) =
     (case body x of
        (x', Some e) \<Rightarrow> (x' # xs, Some e)
      | (x', None) \<Rightarrow> (case for_each body xs of (xs', r) \<Rightarrow> (x' # xs', r)))"

text \<open>Lines 19-21, 66-68 and 102-104: \<^verbatim>\<open>loss = None; if closure is not None: loss = closure()\<close>.\<close>

definition call_closure ::
  "'l closure option \<Rightarrow> param_group list \<Rightarrow> param_group list \<times> (error + 'l option)" where
  "call_closure closure gs =
     (case closure of
        None \<Rightarrow> (gs, Inr None)
      | Some c \<Rightarrow> (case c gs of
                    (gs', Inl e) \<Rightarrow> (gs', Inl e)
                  | (gs', Inr l) \<Rightarrow> (gs', Inr (Some l))))"

section \<open>SGDl1\<close>

definition SGDl1_init :: "params_arg \<Rightarrow> real \<Rightarrow> real \<Rightarrow> error + param_group list" where
  "SGDl1_init ps lr lambda_l1 =
     (if \<not> lambda_l1 > 0 then Inl AssertionError
      else Optimizer_init ps [''lr'' \<mapsto> lr, ''l1'' \<mapsto> lambda_l1])"

text \<open>Line 45, \<^verbatim>\<open>p.data.add_(-group['lr'], d_p)\<close>: the key is read for every parameter.\<close>

definition SGDl1_descend :: "param_group \<Rightarrow> param \<Rightarrow> tensor \<Rightarrow> param \<times> error option" where
  "SGDl1_descend grp p d_p =
     (case hyper grp ''lr'' of
        None \<Rightarrow> (p, Some (KeyError ''lr''))
      | Some lr \<Rightarrow> (p\<lparr>data := add_t (data p) (- lr) d_p\<rparr>, None))"

text \<open>
  Lines 29-45, the body of the inner loop. \<^verbatim>\<open>d_p\<close> is the gradient tensor itself, so
  \<^verbatim>\<open>d_p.add_(lam, torch.sign(p.data))\<close> writes into \<^verbatim>\<open>p.grad\<close>. A gradient whose length is
  not the parameter's raises here at once and unchanged; the library would broadcast a
  parameter of one entry at line 33, write the gradient, and raise at line 45 only. The
  library gives a parameter no gradient of another shape, and \<open>shapes_ok\<close> says so.
\<close>

definition SGDl1_param ::
  "real \<Rightarrow> real \<Rightarrow> real \<Rightarrow> param_group \<Rightarrow> param \<Rightarrow> param \<times> error option" where
  "SGDl1_param lam momentum dampening grp p =
     (case grad p of
        None \<Rightarrow> (p, None)
      | Some g \<Rightarrow>
          if length g \<noteq> length (data p) then (p, Some RuntimeError)
          else
            let d_p = add_t g lam (sign_t (data p));
                p1 = p\<lparr>grad := Some d_p\<rparr>
            in if momentum \<noteq> 0 then
                 (case momentum_buffer p1 of
                    None \<Rightarrow>
                      let buf = add_t (mul_t (zeros_like (data p1)) momentum) 1 d_p
                      in SGDl1_descend grp (p1\<lparr>momentum_buffer := Some buf\<rparr>) buf
                  | Some b \<Rightarrow>
                      let b1 = mul_t b momentum
                      in if length b1 \<noteq> length d_p
                         then (p1\<lparr>momentum_buffer := Some b1\<rparr>, Some RuntimeError)
                         else let buf = add_t b1 (1 - dampening) d_p
                              in SGDl1_descend grp (p1\<lparr>momentum_buffer := Some buf\<rparr>) buf)
               else SGDl1_descend grp p1 d_p)"

text \<open>Lines 24-45, the body of the outer loop.\<close>

definition SGDl1_group :: "param_group \<Rightarrow> param_group \<times> error option" where
  "SGDl1_group grp =
     (case hyper grp ''l1'' of
        None \<Rightarrow> (grp, Some (KeyError ''l1''))
      | Some lam \<Rightarrow>
          (case hyper grp ''momentum'' of
             None \<Rightarrow> (grp, Some (KeyError ''momentum''))
           | Some momentum \<Rightarrow>
               (case hyper grp ''dampening'' of
                  None \<Rightarrow> (grp, Some (KeyError ''dampening''))
                | Some dampening \<Rightarrow>
                    (case for_each (SGDl1_param lam momentum dampening grp) (params grp) of
                       (ps', r) \<Rightarrow> (grp\<lparr>params := ps'\<rparr>, r)))))"

text \<open>Lines 19-47: the closure, the loops, \<^verbatim>\<open>return loss\<close>.\<close>

definition SGDl1_step ::
  "param_group list \<Rightarrow> 'l closure option \<Rightarrow> param_group list \<times> (error + 'l option)" where
  "SGDl1_step gs closure =
     (case call_closure closure gs of
        (gs0, Inl e) \<Rightarrow> (gs0, Inl e)
      | (gs0, Inr loss) \<Rightarrow>
          (case for_each SGDl1_group gs0 of
             (gs1, Some e) \<Rightarrow> (gs1, Inl e)
           | (gs1, None) \<Rightarrow> (gs1, Inr loss)))"

section \<open>The linear minimisation oracle of the L1 ball\<close>

text \<open>
  Modelled from the spec: \<^verbatim>\<open>LMO_l1\<close> of the module \<^verbatim>\<open>oracles\<close>, which is imported by
  \<^verbatim>\<open>optimizers.py\<close> and is not among the sources. It fails for a radius that is not
  positive; otherwise it finds the first entry of largest absolute value and returns the
  zero tensor of the gradient's shape with \<open>- kappa * sign\<close> of that entry in its place.
\<close>

fun argmax_abs :: "tensor \<Rightarrow> nat" where
  "argmax_abs [] = 0"
| "argmax_abs [x] = 0"
| "argmax_abs (x # y # ys) =
     (let i = argmax_abs (y # ys)
      in if \<bar>(y # ys) ! i\<bar> \<le> \<bar>x\<bar> then 0 else Suc i)"

definition LMO_l1 :: "tensor \<Rightarrow> real \<Rightarrow> error + tensor" where
  "LMO_l1 gradient kappa =
     (if kappa \<le> 0 then Inl ShapeError
      else if gradient = [] then Inr []
      else let i = argmax_abs gradient
           in Inr ((replicate (length gradient) 0)[i := - kappa * sgn (gradient ! i)]))"

section \<open>SGDFWl1 and SGDFWNuclear\<close>

definition SGDFWl1_init :: "params_arg \<Rightarrow> real \<Rightarrow> error + fw_optimizer" where
  "SGDFWl1_init ps kappa_l1 =
     (if \<not> kappa_l1 > 0 then Inl AssertionError
      else (case Optimizer_init ps [''kappa'' \<mapsto> kappa_l1] of
              Inl e \<Rightarrow> Inl e
            | Inr gs \<Rightarrow> Inr \<lparr>k = 0, param_groups = Some gs\<rparr>))"

text \<open>
  Line 93 is \<^verbatim>\<open>super(Optimizer, self).__init__(params, defaults)\<close>: the class after
  \<^verbatim>\<open>Optimizer\<close> in the method resolution order is \<^verbatim>\<open>object\<close>, which is called with two
  extra arguments; \<^verbatim>\<open>Optimizer.__init__\<close> does not run.
\<close>

definition SGDFWNuclear_init :: "params_arg \<Rightarrow> real \<Rightarrow> error + fw_optimizer" where
  "SGDFWNuclear_init ps kappa_l1 =
     (if \<not> kappa_l1 > 0 then Inl AssertionError
      else (case object_init 2 of
              Inl e \<Rightarrow> Inl e
            | Inr u \<Rightarrow> Inr \<lparr>k = 0, param_groups = None\<rparr>))"

text \<open>
  Lines 74-80 and 110-116, the body of the inner loop; the two classes differ in the
  oracle only, which is the argument \<open>lmo\<close>. The arithmetic is that of the reals: this is
  the update rule. The same lines with the rounding of binary32 are \<open>FW_param32\<close>.
\<close>

definition FW_param ::
  "(tensor \<Rightarrow> real \<Rightarrow> error + tensor) \<Rightarrow> real \<Rightarrow> nat \<Rightarrow> param \<Rightarrow> param \<times> error option" where
  "FW_param lmo kappa n p =
     (case grad p of
        None \<Rightarrow> (p, None)
      | Some g \<Rightarrow>
          (case lmo g kappa of
             Inl e \<Rightarrow> (p, Some e)
           | Inr s \<Rightarrow>
               let gamma = 2 / (real n + 2)
               in if length s \<noteq> length (data p) then (p, Some RuntimeError)
                  else let delta_p = sub_t (mul_t s gamma) (mul_t (data p) gamma)
                       in (p\<lparr>data := add_t (data p) 1 delta_p\<rparr>, None)))"

text \<open>Lines 71-80 and 107-116, the body of the outer loop.\<close>

definition FW_group ::
  "(tensor \<Rightarrow> real \<Rightarrow> error + tensor) \<Rightarrow> nat \<Rightarrow> param_group \<Rightarrow> param_group \<times> error option" where
  "FW_group lmo n grp =
     (case hyper grp ''kappa_l1'' of
        None \<Rightarrow> (grp, Some (KeyError ''kappa_l1''))
      | Some kappa \<Rightarrow>
          (case for_each (FW_param lmo kappa n) (params grp) of
             (ps', r) \<Rightarrow> (grp\<lparr>params := ps'\<rparr>, r)))"

text \<open>
  Lines 66-83 and 102-119. The closure runs first; then \<^verbatim>\<open>self.param_groups\<close> is read, an
  \<open>AttributeError\<close> on an instance that has no such attribute (the closure then had no
  parameter of this optimizer to act on); \<^verbatim>\<open>self.k += 1\<close> comes after the loops, so a
  call that raises does not reach it.
\<close>

definition FW_step ::
  "(tensor \<Rightarrow> real \<Rightarrow> error + tensor) \<Rightarrow> fw_optimizer \<Rightarrow> 'l closure option
     \<Rightarrow> fw_optimizer \<times> (error + 'l option)" where
  "FW_step lmo opt closure =
     (case param_groups opt of
        None \<Rightarrow>
          (case snd (call_closure closure []) of
             Inl e \<Rightarrow> (opt, Inl e)
           | Inr loss \<Rightarrow> (opt, Inl AttributeError))
      | Some gs \<Rightarrow>
          (case call_closure closure gs of
             (gs0, Inl e) \<Rightarrow> (opt\<lparr>param_groups := Some gs0\<rparr>, Inl e)
           | (gs0, Inr loss) \<Rightarrow>
               (case for_each (FW_group lmo (k opt)) gs0 of
                  (gs1, Some e) \<Rightarrow> (opt\<lparr>param_groups := Some gs1\<rparr>, Inl e)
                | (gs1, None) \<Rightarrow> (opt\<lparr>param_groups := Some gs1, k := k opt + 1\<rparr>, Inr loss))))"

definition SGDFWl1_step ::
  "fw_optimizer \<Rightarrow> 'l closure option \<Rightarrow> fw_optimizer \<times> (error + 'l option)" where
  "SGDFWl1_step = FW_step LMO_l1"

text \<open>
  \<^verbatim>\<open>LMO_nuclear\<close> is a function of the module \<^verbatim>\<open>oracles\<close> too; it needs the leading singular
  vectors of a matrix and stays an argument.
\<close>

definition SGDFWNuclear_step ::
  "(tensor \<Rightarrow> real \<Rightarrow> error + tensor) \<Rightarrow> fw_optimizer \<Rightarrow> 'l closure option
     \<Rightarrow> fw_optimizer \<times> (error + 'l option)" where
  "SGDFWNuclear_step LMO_nuclear = FW_step LMO_nuclear"

section \<open>The driver and the preconditions of a step\<close>

text \<open>
  The training loop is not part of the repository. Between two calls of \<^verbatim>\<open>step\<close> the
  backward pass of the model stores new gradients: \<open>G i j\<close> is the gradient it stores for
  parameter \<open>j\<close> of group \<open>i\<close> (\<open>None\<close>: no gradient). It leaves the values alone.
\<close>

definition load_grads :: "(nat \<Rightarrow> nat \<Rightarrow> tensor option) \<Rightarrow> param_group list \<Rightarrow> param_group list" where
  "load_grads G gs =
     map (\<lambda>(i, g). g\<lparr>params := map (\<lambda>(j, p). p\<lparr>grad := G i j\<rparr>) (enumerate 0 (params g))\<rparr>)
         (enumerate 0 gs)"

text \<open>
  One call of \<^verbatim>\<open>step()\<close> for every element of the list, each after its backward pass; a
  call that raises leaves the optimizer as it is at the raise, and the loop goes on.
\<close>

fun FW_run ::
  "(tensor \<Rightarrow> real \<Rightarrow> error + tensor) \<Rightarrow> (nat \<Rightarrow> nat \<Rightarrow> tensor option) list
     \<Rightarrow> fw_optimizer \<Rightarrow> fw_optimizer" where
  "FW_run lmo [] opt = opt"
| "FW_run lmo (G # Gs) opt =
     FW_run lmo Gs
       (fst (FW_step lmo (opt\<lparr>param_groups := map_option (load_grads G) (param_groups opt)\<rparr>)
               (None :: unit closure option)))"

text \<open>
  What the library guarantees of a parameter, and what the state of \<^verbatim>\<open>SGDl1\<close> keeps: the
  gradient and the momentum buffer have the parameter's shape.
\<close>

definition shapes_ok :: "param \<Rightarrow> bool" where
  "shapes_ok p \<longleftrightarrow>
     (case grad p of None \<Rightarrow> True | Some g \<Rightarrow> length g = length (data p)) \<and>
     (case momentum_buffer p of None \<Rightarrow> True | Some b \<Rightarrow> length b = length (data p))"

text \<open>The groups on which \<^verbatim>\<open>SGDl1.step\<close> finds every key it reads.\<close>

definition SGDl1_ready :: "param_group list \<Rightarrow> bool" where
  "SGDl1_ready gs \<longleftrightarrow>
     list_all (\<lambda>g. list_all (\<lambda>key. case hyper g key of None \<Rightarrow> False | Some v \<Rightarrow> True)
                             [''l1'', ''momentum'', ''dampening'', ''lr'']
                  \<and> list_all shapes_ok (params g)) gs"

text \<open>
  The groups on which a Frank-Wolfe \<^verbatim>\<open>step\<close> finds its key and the oracle answers every
  gradient with a point of the parameter's shape.
\<close>

definition FW_param_ready :: "(tensor \<Rightarrow> real \<Rightarrow> error + tensor) \<Rightarrow> real \<Rightarrow> param \<Rightarrow> bool" where
  "FW_param_ready lmo kappa p \<longleftrightarrow>
     (case grad p of
        None \<Rightarrow> True
      | Some gr \<Rightarrow> (case lmo gr kappa of Inl e \<Rightarrow> False | Inr s \<Rightarrow> length s = length (data p)))"

definition FW_ready :: "(tensor \<Rightarrow> real \<Rightarrow> error + tensor) \<Rightarrow> param_group list \<Rightarrow> bool" where
  "FW_ready lmo gs \<longleftrightarrow>
     list_all (\<lambda>g. case hyper g ''kappa_l1'' of
                     None \<Rightarrow> False
                   | Some kappa \<Rightarrow> list_all (FW_param_ready lmo kappa) (params g)) gs"

text \<open>The update rules in the words of the specification, entry by entry.\<close>

definition effective_gradient :: "real \<Rightarrow> tensor \<Rightarrow> tensor \<Rightarrow> tensor" where
  "effective_gradient lam x g = map2 (\<lambda>xn gn. gn + lam * sgn xn) x g"

definition descent :: "real \<Rightarrow> tensor \<Rightarrow> tensor \<Rightarrow> tensor" where
  "descent lr x d = map2 (\<lambda>xn dn. xn - lr * dn) x d"

definition momentum_recurrence :: "real \<Rightarrow> real \<Rightarrow> tensor \<Rightarrow> tensor \<Rightarrow> tensor" where
  "momentum_recurrence momentum dampening buf d =
     map2 (\<lambda>bn dn. momentum * bn + (1 - dampening) * dn) buf d"

definition convex_step :: "real \<Rightarrow> tensor \<Rightarrow> tensor \<Rightarrow> tensor" where
  "convex_step gamma x s = map2 (\<lambda>xn sn. xn + gamma * (sn - xn)) x s"

section \<open>The binary32 arithmetic of the Frank-Wolfe update\<close>

text \<open>
  The tensors of the code hold binary32 numbers, and whether a value lies in the ball
  can depend on the last bit. For the update of lines 77-80 the rounding is therefore
  modelled as well. A binary32 number is the real it denotes; \<open>None\<close> stands for an
  infinity or a NaN (the update only multiplies, subtracts and adds, and each of these
  gives an infinity or a NaN when an argument is one).
\<close>

type_synonym f32 = "real option"

text \<open>Rounding to the nearest integer, a tie to the even one.\<close>

definition round_half_even :: "real \<Rightarrow> int" where
  "round_half_even y =
     (let f = \<lfloor>y\<rfloor>
      in if y - of_int f < 1 / 2 then f
         else if 1 / 2 < y - of_int f then f + 1
         else if even f then f else f + 1)"

text \<open>
  The exponent \<open>e\<close> of the binade \<open>2 powi e \<le> \<bar>x\<bar> < 2 powi (e + 1)\<close>, searched upwards
  from the smallest exponent (where the subnormal numbers and zero stay) through at most
  \<open>n\<close> larger ones.
\<close>

fun binade_from :: "nat \<Rightarrow> int \<Rightarrow> real \<Rightarrow> int" where
  "binade_from 0 e x = e"
| "binade_from (Suc n) e x = (if \<bar>x\<bar> < 2 powi (e + 1) then e else binade_from n (e + 1) x)"

text \<open>
  Rounding to a binary format with \<open>p\<close> significant bits and exponents from \<open>emin\<close> to
  \<open>emax\<close>: to the nearest multiple of the spacing of the binade, ties to even; a result
  beyond the largest number of the format is an infinity.
\<close>

definition fl_raw :: "nat \<Rightarrow> int \<Rightarrow> int \<Rightarrow> real \<Rightarrow> real" where
  "fl_raw p emin emax x =
     (let e = binade_from (nat (emax - emin)) emin x;
          q = 2 powi (e - int p + 1)
      in q * of_int (round_half_even (x / q)))"

definition fl :: "nat \<Rightarrow> int \<Rightarrow> int \<Rightarrow> real \<Rightarrow> real option" where
  "fl p emin emax x =
     (let r = fl_raw p emin emax x
      in if \<bar>r\<bar> < 2 powi (emax + 1) then Some r else None)"

definition fl32 :: "real \<Rightarrow> f32" where
  "fl32 = fl 24 (- 126) 127"

definition fl64 :: "real \<Rightarrow> real option" where
  "fl64 = fl 53 (- 1022) 1023"

text \<open>The unit roundoff of binary32 and half its smallest subnormal number.\<close>

definition u32 :: real where
  "u32 = 2 powi (- 24)"

definition eta32 :: real where
  "eta32 = 2 powi (- 150)"

text \<open>
  Line 77, \<^verbatim>\<open>gamma = 2 / (self.k + 2)\<close>: the quotient of two integers is a Python float,
  the binary64 number nearest to it, and becomes a binary32 number where it multiplies a
  tensor of binary32 numbers.
\<close>

definition gamma32 :: "nat \<Rightarrow> f32" where
  "gamma32 n = (case fl64 (2 / (real n + 2)) of None \<Rightarrow> None | Some g \<Rightarrow> fl32 g)"

text \<open>An operation on two binary32 numbers: the exact result, rounded.\<close>

definition lift32 :: "(real \<Rightarrow> real \<Rightarrow> real) \<Rightarrow> f32 \<Rightarrow> f32 \<Rightarrow> f32" where
  "lift32 f a b =
     (case a of None \<Rightarrow> None | Some v \<Rightarrow> (case b of None \<Rightarrow> None | Some w \<Rightarrow> fl32 (f v w)))"

definition mul32 :: "f32 \<Rightarrow> f32 \<Rightarrow> f32" where
  "mul32 = lift32 (\<lambda>v w. v * w)"

definition sub32 :: "f32 \<Rightarrow> f32 \<Rightarrow> f32" where
  "sub32 = lift32 (\<lambda>v w. v - w)"

definition add32 :: "f32 \<Rightarrow> f32 \<Rightarrow> f32" where
  "add32 = lift32 (\<lambda>v w. v + w)"

text \<open>
  Lines 77-80 on the value \<open>x\<close> of the parameter and the oracle's point \<open>s\<close>, a tensor of
  binary32 numbers: \<^verbatim>\<open>delta_p = gamma * s - gamma * p.data\<close>, then \<^verbatim>\<open>p.data.add_(delta_p)\<close>,
  every operation rounded.
\<close>

definition FW_update32 :: "nat \<Rightarrow> f32 list \<Rightarrow> tensor \<Rightarrow> f32 list" where
  "FW_update32 n x s =
     (let gamma = gamma32 n;
          delta_p = map2 sub32 (map (\<lambda>si. mul32 gamma (Some si)) s) (map (mul32 gamma) x)
      in map2 add32 x delta_p)"

text \<open>Lines 76-80 on the value of a parameter with the gradient \<open>g\<close>, as \<open>FW_param\<close> has them.\<close>

definition FW_param32 ::
  "(tensor \<Rightarrow> real \<Rightarrow> error + tensor) \<Rightarrow> real \<Rightarrow> nat \<Rightarrow> tensor \<Rightarrow> f32 list \<Rightarrow> f32 list \<times> error option" where
  "FW_param32 lmo kappa n g x =
     (case lmo g kappa of
        Inl e \<Rightarrow> (x, Some e)
      | Inr s \<Rightarrow>
          if length s \<noteq> length x then (x, Some RuntimeError)
          else (FW_update32 n x s, None))"

text \<open>
  The successive updates of one parameter, whatever else the calls of \<^verbatim>\<open>step\<close> do and
  with or without a closure: each with the counter and the gradient of its call. An
  update that raises leaves the value.
\<close>

fun FW_updates32 ::
  "(tensor \<Rightarrow> real \<Rightarrow> error + tensor) \<Rightarrow> real \<Rightarrow> (nat \<times> tensor) list \<Rightarrow> f32 list \<Rightarrow> f32 list" where
  "FW_updates32 lmo kappa [] x = x"
| "FW_updates32 lmo kappa ((n, g) # calls) x =
     FW_updates32 lmo kappa calls (fst (FW_param32 lmo kappa n g x))"

text \<open>What one rounded update can add to a bound \<open>B\<close> on the L1 norm of \<open>m\<close> entries.\<close>

definition inflate :: "nat \<Rightarrow> real \<Rightarrow> real" where
  "inflate m B = (1 + 2 powi (- 20)) * B + 5 * real m * 2 powi (- 150)"

section \<open>Loops and the closure\<close>

lemma for_each_length: "length (fst (for_each body xs)) = length xs"
  by (induction xs) (auto split: prod.splits option.splits)

lemma for_each_all2:
  assumes "\<And>x. P x x" and "\<And>x. P x (fst (body x))"
  shows "list_all2 P xs (fst (for_each body xs))"
proof (induction xs)
  case Nil
  show ?case by simp
next
  case (Cons x xs)
  have refl: "list_all2 P xs xs" using assms(1) by (simp add: list_all2_refl)
  show ?case
  proof (cases "body x")
    case (Pair x' r)
    have hx: "P x x'" using assms(2) [of x] Pair by simp
    show ?thesis
    proof (cases r)
      case None
      with Pair hx Cons show ?thesis by (auto split: prod.splits)
    next
      case (Some e)
      with Pair hx refl show ?thesis by simp
    qed
  qed
qed

lemma for_each_None:
  "for_each body xs = (ys, None) \<Longrightarrow>
     ys = map (\<lambda>x. fst (body x)) xs \<and> (\<forall>x\<in>set xs. snd (body x) = None)"
  by (induction xs arbitrary: ys) (auto split: prod.splits option.splits)

lemma for_each_ok:
  "\<forall>x\<in>set xs. snd (body x) = None \<Longrightarrow> for_each body xs = (map (\<lambda>x. fst (body x)) xs, None)"
  by (induction xs) (auto split: prod.splits option.splits)

lemma call_closure_Some_returns:
  "c gs = (gs0, Inr l) \<Longrightarrow> call_closure (Some c) gs = (gs0, Inr (Some l))"
  by (simp add: call_closure_def)

lemma call_closure_Some_raises:
  "c gs = (gs0, Inl e) \<Longrightarrow> call_closure (Some c) gs = (gs0, Inl e)"
  by (simp add: call_closure_def)

lemma call_closure_None: "call_closure None gs = (gs, Inr None)"
  by (simp add: call_closure_def)

section \<open>Convex combinations and the L1 norm\<close>

lemma l1_norm_step:
  assumes "length s = length x" and "0 \<le> c" and "c \<le> 1"
  shows "l1_norm (add_t x 1 (sub_t (mul_t s c) (mul_t x c))) \<le> (1 - c) * l1_norm x + c * l1_norm s"
  using assms(1)
proof (induction s x rule: list_induct2)
  case Nil
  show ?case by (simp add: l1_norm_def add_t_def sub_t_def mul_t_def)
next
  case (Cons a s b x)
  have "\<bar>b + (a * c - b * c)\<bar> = \<bar>(1 - c) * b + c * a\<bar>" by (simp add: algebra_simps)
  also have "\<dots> \<le> \<bar>(1 - c) * b\<bar> + \<bar>c * a\<bar>" by (rule abs_triangle_ineq)
  also have "\<dots> = (1 - c) * \<bar>b\<bar> + c * \<bar>a\<bar>" using assms(2,3) by (simp add: abs_mult)
  finally have h: "\<bar>b + (a * c - b * c)\<bar> \<le> (1 - c) * \<bar>b\<bar> + c * \<bar>a\<bar>" .
  from Cons.IH h show ?case
    by (simp add: l1_norm_def add_t_def sub_t_def mul_t_def algebra_simps)
qed

lemma gamma_range: "0 \<le> 2 / (real n + 2) \<and> 2 / (real n + 2) \<le> 1"
  by simp

lemma l1_norm_ball:
  assumes "length s = length x" and "l1_norm x \<le> kappa" and "l1_norm s \<le> kappa"
  shows "l1_norm (add_t x 1 (sub_t (mul_t s (2 / (real n + 2))) (mul_t x (2 / (real n + 2))))) \<le> kappa"
proof -
  let ?c = "2 / (real n + 2)"
  have c: "0 \<le> ?c" "?c \<le> 1" by simp_all
  have "l1_norm (add_t x 1 (sub_t (mul_t s ?c) (mul_t x ?c))) \<le> (1 - ?c) * l1_norm x + ?c * l1_norm s"
    using assms(1) c by (rule l1_norm_step)
  also have "\<dots> \<le> (1 - ?c) * kappa + ?c * kappa"
    using assms(2,3) c by (intro add_mono mult_left_mono) simp_all
  also have "\<dots> = kappa" by (simp add: algebra_simps)
  finally show ?thesis .
qed

section \<open>The Frank-Wolfe loops\<close>

lemma FW_param_absent: "grad p = None \<Longrightarrow> FW_param lmo kappa n p = (p, None)"
  by (simp add: FW_param_def)

lemma FW_param_frame:
  "grad (fst (FW_param lmo kappa n p)) = grad p \<and>
   momentum_buffer (fst (FW_param lmo kappa n p)) = momentum_buffer p"
  by (simp add: FW_param_def Let_def split: option.splits sum.splits)

lemma FW_param_grad: "grad (fst (FW_param lmo kappa n p)) = grad p"
  by (simp add: FW_param_frame)

lemma FW_param_ball:
  assumes "\<forall>g s. lmo g kappa = Inr s \<longrightarrow> l1_norm s \<le> kappa"
    and "l1_norm (data p) \<le> kappa"
  shows "l1_norm (data (fst (FW_param lmo kappa n p))) \<le> kappa"
proof (cases "grad p")
  case None
  with assms(2) show ?thesis by (simp add: FW_param_def)
next
  case (Some g)
  show ?thesis
  proof (cases "lmo g kappa")
    case (Inl e)
    with Some assms(2) show ?thesis by (simp add: FW_param_def)
  next
    case (Inr s)
    with assms(1) have s: "l1_norm s \<le> kappa" by blast
    show ?thesis
    proof (cases "length s = length (data p)")
      case True
      from l1_norm_ball [OF True assms(2) s, of n] Some Inr True
      show ?thesis by (simp add: FW_param_def Let_def)
    next
      case False
      with Some Inr assms(2) show ?thesis by (simp add: FW_param_def Let_def)
    qed
  qed
qed

lemma FW_group_None:
  "hyper g ''kappa_l1'' = None \<Longrightarrow> FW_group lmo n g = (g, Some (KeyError ''kappa_l1''))"
  by (simp add: FW_group_def)

lemma FW_group_Some:
  "hyper g ''kappa_l1'' = Some kappa \<Longrightarrow>
     FW_group lmo n g = (g\<lparr>params := fst (for_each (FW_param lmo kappa n) (params g))\<rparr>,
                         snd (for_each (FW_param lmo kappa n) (params g)))"
  by (simp add: FW_group_def split: prod.splits)

lemma FW_group_hyper: "hyper (fst (FW_group lmo n g)) = hyper g"
  by (simp add: FW_group_def split: option.splits prod.splits)

lemma FW_group_all2:
  assumes "\<And>p. P p p"
    and "\<And>kappa p. hyper g ''kappa_l1'' = Some kappa \<Longrightarrow> P p (fst (FW_param lmo kappa n p))"
  shows "list_all2 P (params g) (params (fst (FW_group lmo n g)))"
proof (cases "hyper g ''kappa_l1''")
  case None
  then show ?thesis using assms(1) by (simp add: FW_group_def list_all2_refl)
next
  case (Some kappa)
  have "list_all2 P (params g) (fst (for_each (FW_param lmo kappa n) (params g)))"
    using assms(1) assms(2) [OF Some] by (rule for_each_all2)
  with Some show ?thesis by (simp add: FW_group_Some)
qed

text \<open>The state in which the loops of a step start, and the state in which the step ends.\<close>

lemma FW_step_groups:
  assumes "param_groups opt = Some gs"
  shows "\<exists>gs'. param_groups (fst (FW_step lmo opt cl)) = Some gs' \<and>
           (gs' = fst (call_closure cl gs) \<or>
            gs' = fst (for_each (FW_group lmo (k opt)) (fst (call_closure cl gs))))"
  using assms by (auto simp add: FW_step_def split: prod.splits sum.splits option.splits)

lemma FW_groups_all2:
  assumes "\<And>g. Q g g" and "\<And>g. Q g (fst (FW_group lmo n g))"
  shows "list_all2 Q gs (fst (for_each (FW_group lmo n) gs))"
  using assms by (rule for_each_all2)

lemma FW_groups_ball:
  assumes lmo: "\<forall>gr s. lmo gr kappa = Inr s \<longrightarrow> l1_norm s \<le> kappa"
    and i: "i < length gs" and j: "j < length (params (gs ! i))"
    and key: "hyper (gs ! i) ''kappa_l1'' = None \<or> hyper (gs ! i) ''kappa_l1'' = Some kappa"
    and ball: "l1_norm (data (params (gs ! i) ! j)) \<le> kappa"
    and gs': "gs' = fst (for_each (FW_group lmo n) gs)"
  shows "length gs' = length gs \<and> hyper (gs' ! i) = hyper (gs ! i) \<and>
         length (params (gs' ! i)) = length (params (gs ! i)) \<and>
         l1_norm (data (params (gs' ! i) ! j)) \<le> kappa"
proof -
  define P where "P g p p' \<longleftrightarrow>
      (hyper g ''kappa_l1'' = None \<or> hyper g ''kappa_l1'' = Some kappa) \<longrightarrow>
      l1_norm (data p) \<le> kappa \<longrightarrow> l1_norm (data p') \<le> kappa" for g :: param_group and p p' :: param
  define Q where "Q g g' \<longleftrightarrow> hyper g' = hyper g \<and> list_all2 (P g) (params g) (params g')"
    for g g' :: param_group
  have Prefl: "P g p p" for g p by (simp add: P_def)
  have Qrefl: "Q g g" for g by (simp add: Q_def Prefl list_all2_refl)
  have Pstep: "P g p (fst (FW_param lmo kappa' n p))" if "hyper g ''kappa_l1'' = Some kappa'" for g kappa' p
    unfolding P_def using that lmo FW_param_ball [of lmo kappa p n] by auto
  have Qstep: "Q g (fst (FW_group lmo n g))" for g
    unfolding Q_def using FW_group_hyper [of lmo n g] FW_group_all2 [of "P g" g lmo n] Prefl Pstep
    by blast
  have "list_all2 Q gs (fst (for_each (FW_group lmo n) gs))"
    using Qrefl Qstep by (rule for_each_all2)
  then have all: "list_all2 Q gs gs'" by (simp add: gs')
  then have len: "length gs' = length gs" by (simp add: list_all2_lengthD)
  from all i have Qi: "Q (gs ! i) (gs' ! i)" by (rule list_all2_nthD)
  then have hyp: "hyper (gs' ! i) = hyper (gs ! i)"
    and ps: "list_all2 (P (gs ! i)) (params (gs ! i)) (params (gs' ! i))"
    by (simp_all add: Q_def)
  from ps have plen: "length (params (gs' ! i)) = length (params (gs ! i))"
    by (simp add: list_all2_lengthD)
  from ps j have "P (gs ! i) (params (gs ! i) ! j) (params (gs' ! i) ! j)" by (rule list_all2_nthD)
  with key ball have "l1_norm (data (params (gs' ! i) ! j)) \<le> kappa" by (simp add: P_def)
  with len hyp plen show ?thesis by simp
qed

lemma load_grads_nth:
  assumes "i < length gs" and "j < length (params (gs ! i))"
  shows "length (load_grads G gs) = length gs \<and>
         hyper (load_grads G gs ! i) = hyper (gs ! i) \<and>
         length (params (load_grads G gs ! i)) = length (params (gs ! i)) \<and>
         data (params (load_grads G gs ! i) ! j) = data (params (gs ! i) ! j)"
  using assms by (simp add: load_grads_def nth_enumerate_eq)

lemma FW_step_ball:
  assumes lmo: "\<forall>gr s. lmo gr kappa = Inr s \<longrightarrow> l1_norm s \<le> kappa"
    and opt: "param_groups opt = Some gs"
    and i: "i < length gs" and j: "j < length (params (gs ! i))"
    and key: "hyper (gs ! i) ''kappa_l1'' = None \<or> hyper (gs ! i) ''kappa_l1'' = Some kappa"
    and ball: "l1_norm (data (params (gs ! i) ! j)) \<le> kappa"
  shows "\<exists>gs'. param_groups (fst (FW_step lmo opt (None :: unit closure option))) = Some gs' \<and>
           i < length gs' \<and> j < length (params (gs' ! i)) \<and>
           (hyper (gs' ! i) ''kappa_l1'' = None \<or> hyper (gs' ! i) ''kappa_l1'' = Some kappa) \<and>
           l1_norm (data (params (gs' ! i) ! j)) \<le> kappa"
proof -
  obtain gs' where gs': "param_groups (fst (FW_step lmo opt (None :: unit closure option))) = Some gs'"
    and alt: "gs' = gs \<or> gs' = fst (for_each (FW_group lmo (k opt)) gs)"
    using FW_step_groups [OF opt, of lmo "None :: unit closure option"]
    by (auto simp add: call_closure_def)
  from alt show ?thesis
  proof
    assume "gs' = gs"
    with gs' i j key ball show ?thesis by simp
  next
    assume "gs' = fst (for_each (FW_group lmo (k opt)) gs)"
    from FW_groups_ball [OF lmo i j key ball this] gs' i j key show ?thesis by simp
  qed
qed

section \<open>The oracle of the specification stays in the ball\<close>

lemma l1_norm_replicate: "l1_norm (replicate n 0) = 0"
  by (induction n) (simp_all add: l1_norm_def)

lemma l1_norm_one_hot: "l1_norm ((replicate n 0)[i := v]) \<le> \<bar>v\<bar>"
proof (induction n arbitrary: i)
  case 0
  show ?case by (simp add: l1_norm_def)
next
  case (Suc n)
  show ?case
  proof (cases i)
    case 0
    have "l1_norm (v # replicate n 0) = \<bar>v\<bar> + l1_norm (replicate n 0)" by (simp add: l1_norm_def)
    with 0 show ?thesis by (simp add: l1_norm_replicate)
  next
    case (Suc i')
    have "l1_norm (0 # (replicate n 0)[i' := v]) = l1_norm ((replicate n 0)[i' := v])"
      by (simp add: l1_norm_def)
    with Suc Suc.IH [of i'] show ?thesis by simp
  qed
qed

lemma LMO_l1_in_ball:
  assumes "LMO_l1 g kappa = Inr s"
  shows "l1_norm s \<le> kappa \<and> length s = length g"
proof -
  have pos: "0 < kappa" using assms by (auto simp add: LMO_l1_def split: if_splits)
  show ?thesis
  proof (cases "g = []")
    case True
    with assms pos show ?thesis by (simp add: LMO_l1_def l1_norm_def)
  next
    case False
    let ?v = "- kappa * sgn (g ! argmax_abs g)"
    have s: "s = (replicate (length g) 0)[argmax_abs g := ?v]"
      using assms pos False by (simp add: LMO_l1_def Let_def)
    have "\<bar>?v\<bar> \<le> kappa" using pos by (simp add: abs_mult sgn_real_def)
    with l1_norm_one_hot [of "length g" "argmax_abs g" ?v] s show ?thesis by simp
  qed
qed

section \<open>Tensor identities\<close>

lemma effective_gradient_length:
  "length g = length x \<Longrightarrow> length (effective_gradient lam x g) = length x"
  by (simp add: effective_gradient_def)

lemma add_sign_effective: "add_t g lam (sign_t x) = effective_gradient lam x g"
  unfolding add_t_def sign_t_def effective_gradient_def
proof (induction x arbitrary: g)
  case Nil
  show ?case by simp
next
  case (Cons a x)
  then show ?case by (cases g) simp_all
qed

lemma add_neg_descent: "add_t x (- lr) d = descent lr x d"
  by (simp add: add_t_def descent_def)

lemma first_buffer: "length d = length x \<Longrightarrow> add_t (mul_t (zeros_like x) momentum) 1 d = d"
  unfolding add_t_def mul_t_def zeros_like_def
  by (induction d x rule: list_induct2) simp_all

lemma next_buffer:
  "add_t (mul_t b momentum) (1 - dampening) d = momentum_recurrence momentum dampening b d"
  unfolding add_t_def mul_t_def momentum_recurrence_def
proof (induction b arbitrary: d)
  case Nil
  show ?case by simp
next
  case (Cons a b)
  then show ?case by (cases d) (simp_all add: mult.commute)
qed

lemma mul_t_length: "length (mul_t b a) = length b"
  by (simp add: mul_t_def)

lemma momentum_recurrence_length:
  "length b = length d \<Longrightarrow> length (momentum_recurrence momentum dampening b d) = length d"
  by (simp add: momentum_recurrence_def)

lemma add_delta_convex:
  "length s = length x \<Longrightarrow> add_t x 1 (sub_t (mul_t s c) (mul_t x c)) = convex_step c x s"
  unfolding add_t_def sub_t_def mul_t_def convex_step_def
  by (induction s x rule: list_induct2) (simp_all add: algebra_simps)

lemma descent_effective:
  "length g = length x \<Longrightarrow>
     descent lr x (effective_gradient lam x g) = map2 (\<lambda>xn gn. xn - lr * (gn + lam * sgn xn)) x g"
  unfolding descent_def effective_gradient_def
  by (induction g x rule: list_induct2) simp_all

section \<open>The update of one parameter by SGDl1\<close>

lemma SGDl1_param_absent: "grad p = None \<Longrightarrow> SGDl1_param lam momentum dampening grp p = (p, None)"
  by (simp add: SGDl1_param_def)

lemma SGDl1_param_plain:
  assumes "grad p = Some g" and "length g = length (data p)" and "hyper grp ''lr'' = Some lr"
  shows "SGDl1_param lam 0 dampening grp p =
           (p\<lparr>grad := Some (effective_gradient lam (data p) g),
              data := descent lr (data p) (effective_gradient lam (data p) g)\<rparr>, None)"
  using assms
  by (simp add: SGDl1_param_def SGDl1_descend_def Let_def add_sign_effective add_neg_descent)

lemma SGDl1_param_first:
  assumes "grad p = Some g" and "length g = length (data p)" and "hyper grp ''lr'' = Some lr"
    and "momentum \<noteq> 0" and "momentum_buffer p = None"
  shows "SGDl1_param lam momentum dampening grp p =
           (p\<lparr>grad := Some (effective_gradient lam (data p) g),
              momentum_buffer := Some (effective_gradient lam (data p) g),
              data := descent lr (data p) (effective_gradient lam (data p) g)\<rparr>, None)"
  using assms
  by (simp add: SGDl1_param_def SGDl1_descend_def Let_def add_sign_effective add_neg_descent
        first_buffer effective_gradient_length)

lemma SGDl1_param_next:
  assumes "grad p = Some g" and "length g = length (data p)" and "hyper grp ''lr'' = Some lr"
    and "momentum \<noteq> 0" and "momentum_buffer p = Some b" and "length b = length (data p)"
  shows "SGDl1_param lam momentum dampening grp p =
           (p\<lparr>grad := Some (effective_gradient lam (data p) g),
              momentum_buffer :=
                Some (momentum_recurrence momentum dampening b (effective_gradient lam (data p) g)),
              data := descent lr (data p)
                (momentum_recurrence momentum dampening b (effective_gradient lam (data p) g))\<rparr>, None)"
  using assms
  by (simp add: SGDl1_param_def SGDl1_descend_def Let_def add_sign_effective add_neg_descent
        next_buffer effective_gradient_length mul_t_length)

lemma SGDl1_param_no_error:
  assumes "shapes_ok p" and "hyper grp ''lr'' = Some lr"
  shows "snd (SGDl1_param lam momentum dampening grp p) = None"
  using assms
  by (auto simp add: SGDl1_param_def SGDl1_descend_def Let_def shapes_ok_def mul_t_def add_t_def sign_t_def
      split: option.splits)

section \<open>A step of SGDl1 on groups that carry every key\<close>

lemma SGDl1_group_keys:
  assumes "hyper g ''l1'' = Some lam" and "hyper g ''momentum'' = Some momentum"
    and "hyper g ''dampening'' = Some dampening"
  shows "SGDl1_group g =
           (g\<lparr>params := fst (for_each (SGDl1_param lam momentum dampening g) (params g))\<rparr>,
            snd (for_each (SGDl1_param lam momentum dampening g) (params g)))"
  using assms by (simp add: SGDl1_group_def split: prod.splits)

lemma SGDl1_group_ready:
  assumes "hyper g ''l1'' = Some lam" and "hyper g ''momentum'' = Some momentum"
    and "hyper g ''dampening'' = Some dampening" and "hyper g ''lr'' = Some lr"
    and "list_all shapes_ok (params g)"
  shows "SGDl1_group g =
           (g\<lparr>params := map (\<lambda>p. fst (SGDl1_param lam momentum dampening g p)) (params g)\<rparr>, None)"
proof -
  have "\<forall>p\<in>set (params g). snd (SGDl1_param lam momentum dampening g p) = None"
    using assms(4,5) SGDl1_param_no_error by (simp add: list_all_iff)
  then have "for_each (SGDl1_param lam momentum dampening g) (params g) =
               (map (\<lambda>p. fst (SGDl1_param lam momentum dampening g p)) (params g), None)"
    by (rule for_each_ok)
  with SGDl1_group_keys [OF assms(1,2,3)] show ?thesis by simp
qed

lemma SGDl1_ready_group:
  assumes "SGDl1_ready gs" and "g \<in> set gs"
  shows "\<exists>lam momentum dampening lr.
           hyper g ''l1'' = Some lam \<and> hyper g ''momentum'' = Some momentum \<and>
           hyper g ''dampening'' = Some dampening \<and> hyper g ''lr'' = Some lr \<and>
           list_all shapes_ok (params g)"
  using assms by (auto simp add: SGDl1_ready_def list_all_iff split: option.splits)

lemma SGDl1_groups_ready:
  assumes "SGDl1_ready gs"
  shows "for_each SGDl1_group gs = (map (\<lambda>g. fst (SGDl1_group g)) gs, None)"
proof (rule for_each_ok, rule ballI)
  fix g assume "g \<in> set gs"
  from SGDl1_ready_group [OF assms this] obtain lam momentum dampening lr where
    "hyper g ''l1'' = Some lam" "hyper g ''momentum'' = Some momentum"
    "hyper g ''dampening'' = Some dampening" "hyper g ''lr'' = Some lr"
    "list_all shapes_ok (params g)" by blast
  then show "snd (SGDl1_group g) = None" by (simp add: SGDl1_group_ready)
qed

lemma SGDl1_step_ready:
  assumes cl: "call_closure closure gs = (gs0, Inr loss)" and ready: "SGDl1_ready gs0"
  shows "SGDl1_step gs closure = (map (\<lambda>g. fst (SGDl1_group g)) gs0, Inr loss)"
  using cl SGDl1_groups_ready [OF ready] by (simp add: SGDl1_step_def)

lemma SGDl1_step_param:
  assumes cl: "call_closure closure gs = (gs0, Inr loss)" and ready: "SGDl1_ready gs0"
    and i: "i < length gs0" and j: "j < length (params (gs0 ! i))"
    and keys: "hyper (gs0 ! i) ''l1'' = Some lam" "hyper (gs0 ! i) ''momentum'' = Some momentum"
      "hyper (gs0 ! i) ''dampening'' = Some dampening"
  shows "\<exists>gs'. SGDl1_step gs closure = (gs', Inr loss) \<and>
           params (gs' ! i) ! j =
             fst (SGDl1_param lam momentum dampening (gs0 ! i) (params (gs0 ! i) ! j))"
proof -
  from i have mem: "gs0 ! i \<in> set gs0" by simp
  from SGDl1_ready_group [OF ready mem] obtain lr where
    lr: "hyper (gs0 ! i) ''lr'' = Some lr" and sh: "list_all shapes_ok (params (gs0 ! i))"
    by blast
  have "fst (SGDl1_group (gs0 ! i)) =
          (gs0 ! i)\<lparr>params := map (\<lambda>p. fst (SGDl1_param lam momentum dampening (gs0 ! i) p))
                                  (params (gs0 ! i))\<rparr>"
    using SGDl1_group_ready [OF keys lr sh] by simp
  with i j SGDl1_step_ready [OF cl ready] show ?thesis by simp
qed

lemma SGDl1_ready_shapes:
  assumes "SGDl1_ready gs" and "i < length gs" and "j < length (params (gs ! i))"
  shows "shapes_ok (params (gs ! i) ! j) \<and> (\<exists>lr. hyper (gs ! i) ''lr'' = Some lr)"
proof -
  from assms(2) have mem: "gs ! i \<in> set gs" by simp
  from SGDl1_ready_group [OF assms(1) mem] assms(3) show ?thesis
    by (auto simp add: list_all_length)
qed

section \<open>A Frank-Wolfe step on groups that carry the key\<close>

lemma FW_param_update:
  assumes "grad p = Some g" and "lmo g kappa = Inr s" and "length s = length (data p)"
  shows "FW_param lmo kappa n p = (p\<lparr>data := convex_step (2 / (real n + 2)) (data p) s\<rparr>, None)"
  using assms by (simp add: FW_param_def Let_def add_delta_convex)

lemma FW_ready_group:
  assumes "FW_ready lmo gs" and "g \<in> set gs"
  shows "\<exists>kappa. hyper g ''kappa_l1'' = Some kappa \<and> list_all (FW_param_ready lmo kappa) (params g)"
proof -
  from assms have "case hyper g ''kappa_l1'' of None \<Rightarrow> False
                   | Some kappa \<Rightarrow> list_all (FW_param_ready lmo kappa) (params g)"
    by (simp add: FW_ready_def list_all_iff)
  then show ?thesis by (cases "hyper g ''kappa_l1''") simp_all
qed

lemma FW_param_ready_no_error:
  assumes "FW_param_ready lmo kappa p"
  shows "snd (FW_param lmo kappa n p) = None"
proof (cases "grad p")
  case None
  then show ?thesis by (simp add: FW_param_absent)
next
  case (Some gr)
  with assms obtain s where "lmo gr kappa = Inr s" "length s = length (data p)"
    by (cases "lmo gr kappa") (simp_all add: FW_param_ready_def)
  with Some show ?thesis by (simp add: FW_param_update)
qed

lemma FW_group_ready:
  assumes key: "hyper g ''kappa_l1'' = Some kappa"
    and ok: "list_all (FW_param_ready lmo kappa) (params g)"
  shows "FW_group lmo n g = (g\<lparr>params := map (\<lambda>p. fst (FW_param lmo kappa n p)) (params g)\<rparr>, None)"
proof -
  have "\<forall>p\<in>set (params g). snd (FW_param lmo kappa n p) = None"
    using ok FW_param_ready_no_error by (simp add: list_all_iff)
  then have "for_each (FW_param lmo kappa n) (params g) =
               (map (\<lambda>p. fst (FW_param lmo kappa n p)) (params g), None)"
    by (rule for_each_ok)
  with FW_group_Some [OF key, of lmo n] show ?thesis by simp
qed

lemma FW_groups_ready:
  assumes "FW_ready lmo gs"
  shows "for_each (FW_group lmo n) gs = (map (\<lambda>g. fst (FW_group lmo n g)) gs, None)"
proof (rule for_each_ok, rule ballI)
  fix g assume "g \<in> set gs"
  from FW_ready_group [OF assms this] obtain kappa where
    "hyper g ''kappa_l1'' = Some kappa" "list_all (FW_param_ready lmo kappa) (params g)" by blast
  then show "snd (FW_group lmo n g) = None" by (simp add: FW_group_ready)
qed

lemma FW_step_ready:
  assumes opt: "param_groups opt = Some gs" and cl: "call_closure closure gs = (gs0, Inr loss)"
    and ready: "FW_ready lmo gs0"
  shows "FW_step lmo opt closure =
           (opt\<lparr>param_groups := Some (map (\<lambda>g. fst (FW_group lmo (k opt) g)) gs0), k := k opt + 1\<rparr>,
            Inr loss)"
  using opt cl FW_groups_ready [OF ready, of "k opt"] by (simp add: FW_step_def)

text \<open>
  The update of a parameter by a call that finds its key in every group: the value moves
  towards the oracle's point by \<open>gamma = 2 / (k + 2)\<close>.
\<close>

lemma FW_step_update:
  assumes opt: "param_groups opt = Some gs" and cl: "call_closure closure gs = (gs0, Inr loss)"
    and ready: "FW_ready lmo gs0"
    and i: "i < length gs0" and j: "j < length (params (gs0 ! i))"
    and key: "hyper (gs0 ! i) ''kappa_l1'' = Some kappa"
    and g: "grad (params (gs0 ! i) ! j) = Some g" and s: "lmo g kappa = Inr s"
  shows "\<exists>gs'. FW_step lmo opt closure = (opt\<lparr>param_groups := Some gs', k := k opt + 1\<rparr>, Inr loss) \<and>
           data (params (gs' ! i) ! j) =
             convex_step (2 / (real (k opt) + 2)) (data (params (gs0 ! i) ! j)) s"
proof -
  let ?p = "params (gs0 ! i) ! j"
  from i have mem: "gs0 ! i \<in> set gs0" by simp
  from j have pmem: "?p \<in> set (params (gs0 ! i))" by simp
  from FW_ready_group [OF ready mem] key have
    ok: "list_all (FW_param_ready lmo kappa) (params (gs0 ! i))" by simp
  with pmem have "FW_param_ready lmo kappa ?p" by (simp add: list_all_iff)
  with g s have len: "length s = length (data ?p)" by (simp add: FW_param_ready_def)
  have grp: "fst (FW_group lmo (k opt) (gs0 ! i)) =
          (gs0 ! i)\<lparr>params := map (\<lambda>p. fst (FW_param lmo kappa (k opt) p)) (params (gs0 ! i))\<rparr>"
    using key ok by (simp add: FW_group_ready)
  have "data (params (map (\<lambda>g. fst (FW_group lmo (k opt) g)) gs0 ! i) ! j) =
          convex_step (2 / (real (k opt) + 2)) (data ?p) s"
    using i j grp FW_param_update [where lmo = lmo and n = "k opt", OF g s len] by simp
  with FW_step_ready [OF opt cl ready] show ?thesis by blast
qed

text \<open>The counter moves exactly when the call returns.\<close>

lemma FW_step_counter:
  "k (fst (FW_step lmo opt closure)) =
     (case snd (FW_step lmo opt closure) of Inl e \<Rightarrow> k opt | Inr loss \<Rightarrow> k opt + 1)"
  by (simp add: FW_step_def split: option.splits prod.splits sum.splits)

text \<open>
  An optimizer built from a plain list of parameters: the groups have the keys of the
  defaults only, and every call of \<^verbatim>\<open>step\<close> raises.
\<close>

lemma SGDFWl1_plain_step_raises:
  assumes "SGDFWl1_init (Tensors ts) kappa_l1 = Inr opt"
  shows "SGDFWl1_step opt (None :: 'l closure option) = (opt, Inl (KeyError ''kappa_l1''))"
proof -
  from assms obtain g where gs: "param_groups opt = Some [g]" and key: "hyper g ''kappa_l1'' = None"
    by (auto simp add: SGDFWl1_init_def Optimizer_init_def split: if_splits)
  then show ?thesis
    by (simp add: SGDFWl1_step_def FW_step_def call_closure_def FW_group_None)
qed

lemma SGDl1_plain_step_raises:
  assumes "SGDl1_init (Tensors ts) lr lambda_l1 = Inr gs"
  shows "SGDl1_step gs (None :: 'l closure option) = (gs, Inl (KeyError ''momentum''))"
proof -
  from assms obtain g where gs: "gs = [g]" and key: "hyper g ''l1'' = Some lambda_l1"
    "hyper g ''momentum'' = None"
    by (auto simp add: SGDl1_init_def Optimizer_init_def split: if_splits)
  then show ?thesis
    by (simp add: SGDl1_step_def call_closure_def SGDl1_group_def)
qed

section \<open>What a step leaves alone\<close>

lemma SGDl1_group_all2:
  assumes "\<And>p. P p p"
    and "\<And>lam momentum dampening p. P p (fst (SGDl1_param lam momentum dampening g p))"
  shows "list_all2 P (params g) (params (fst (SGDl1_group g)))"
proof (cases "\<exists>lam momentum dampening. hyper g ''l1'' = Some lam \<and>
                hyper g ''momentum'' = Some momentum \<and> hyper g ''dampening'' = Some dampening")
  case True
  then obtain lam momentum dampening where keys: "hyper g ''l1'' = Some lam"
    "hyper g ''momentum'' = Some momentum" "hyper g ''dampening'' = Some dampening" by blast
  have "list_all2 P (params g) (fst (for_each (SGDl1_param lam momentum dampening g) (params g)))"
    using assms(1) assms(2) by (rule for_each_all2)
  with SGDl1_group_keys [OF keys] show ?thesis by simp
next
  case False
  then have "fst (SGDl1_group g) = g" by (auto simp add: SGDl1_group_def split: option.splits)
  with assms(1) show ?thesis by (simp add: list_all2_refl)
qed

lemma SGDl1_step_state:
  "fst (SGDl1_step gs closure) = fst (call_closure closure gs) \<or>
   fst (SGDl1_step gs closure) = fst (for_each SGDl1_group (fst (call_closure closure gs)))"
  by (auto simp add: SGDl1_step_def split: prod.splits sum.splits option.splits)

lemma SGDl1_step_frame:
  assumes refl: "\<And>p. P p p"
    and body: "\<And>lam momentum dampening g p. P p (fst (SGDl1_param lam momentum dampening g p))"
    and i: "i < length (fst (call_closure closure gs))"
    and j: "j < length (params (fst (call_closure closure gs) ! i))"
  shows "P (params (fst (call_closure closure gs) ! i) ! j) (params (fst (SGDl1_step gs closure) ! i) ! j)"
proof -
  let ?gs0 = "fst (call_closure closure gs)"
  define Q where "Q g g' \<longleftrightarrow> list_all2 P (params g) (params g')" for g g' :: param_group
  have Qrefl: "Q g g" for g using refl by (simp add: Q_def list_all2_refl)
  have Qstep: "Q g (fst (SGDl1_group g))" for g
    unfolding Q_def using refl body by (rule SGDl1_group_all2)
  have all: "list_all2 Q ?gs0 (fst (for_each SGDl1_group ?gs0))"
    using Qrefl Qstep by (rule for_each_all2)
  from SGDl1_step_state [of gs closure] show ?thesis
  proof
    assume "fst (SGDl1_step gs closure) = ?gs0"
    with refl show ?thesis by simp
  next
    assume st: "fst (SGDl1_step gs closure) = fst (for_each SGDl1_group ?gs0)"
    from all i have "Q (?gs0 ! i) (fst (for_each SGDl1_group ?gs0) ! i)" by (rule list_all2_nthD)
    then have "list_all2 P (params (?gs0 ! i)) (params (fst (for_each SGDl1_group ?gs0) ! i))"
      by (simp add: Q_def)
    from this j have "P (params (?gs0 ! i) ! j) (params (fst (for_each SGDl1_group ?gs0) ! i) ! j)"
      by (rule list_all2_nthD)
    with st show ?thesis by simp
  qed
qed

lemma FW_step_frame:
  assumes refl: "\<And>p. P p p"
    and body: "\<And>kappa p. P p (fst (FW_param lmo kappa (k opt) p))"
    and opt: "param_groups opt = Some gs"
    and i: "i < length (fst (call_closure closure gs))"
    and j: "j < length (params (fst (call_closure closure gs) ! i))"
  shows "\<exists>gs'. param_groups (fst (FW_step lmo opt closure)) = Some gs' \<and>
           P (params (fst (call_closure closure gs) ! i) ! j) (params (gs' ! i) ! j)"
proof -
  let ?gs0 = "fst (call_closure closure gs)"
  define Q where "Q g g' \<longleftrightarrow> list_all2 P (params g) (params g')" for g g' :: param_group
  have Qrefl: "Q g g" for g using refl by (simp add: Q_def list_all2_refl)
  have Qstep: "Q g (fst (FW_group lmo (k opt) g))" for g
    unfolding Q_def using refl body by (rule FW_group_all2)
  have all: "list_all2 Q ?gs0 (fst (for_each (FW_group lmo (k opt)) ?gs0))"
    using Qrefl Qstep by (rule for_each_all2)
  from FW_step_groups [OF opt, of lmo closure] obtain gs' where
    gs': "param_groups (fst (FW_step lmo opt closure)) = Some gs'"
    and alt: "gs' = ?gs0 \<or> gs' = fst (for_each (FW_group lmo (k opt)) ?gs0)" by blast
  from alt have "P (params (?gs0 ! i) ! j) (params (gs' ! i) ! j)"
  proof
    assume "gs' = ?gs0"
    with refl show ?thesis by simp
  next
    assume st: "gs' = fst (for_each (FW_group lmo (k opt)) ?gs0)"
    from all i have "Q (?gs0 ! i) (fst (for_each (FW_group lmo (k opt)) ?gs0) ! i)"
      by (rule list_all2_nthD)
    then have "list_all2 P (params (?gs0 ! i))
                 (params (fst (for_each (FW_group lmo (k opt)) ?gs0) ! i))" by (simp add: Q_def)
    from this j have "P (params (?gs0 ! i) ! j)
                        (params (fst (for_each (FW_group lmo (k opt)) ?gs0) ! i) ! j)"
      by (rule list_all2_nthD)
    with st show ?thesis by simp
  qed
  with gs' show ?thesis by blast
qed

section \<open>Rounding errors of the Frank-Wolfe update\<close>

lemma round_half_even_error: "\<bar>of_int (round_half_even y) - y\<bar> \<le> 1 / 2"
proof -
  have lo: "of_int \<lfloor>y\<rfloor> \<le> y" by simp
  have hi: "y < of_int \<lfloor>y\<rfloor> + 1" by linarith
  show ?thesis
    using lo hi by (auto simp add: round_half_even_def Let_def)
qed

lemma binade_from_props:
  "e \<le> binade_from n e x \<and> binade_from n e x \<le> e + int n \<and>
   (binade_from n e x < e + int n \<longrightarrow> \<bar>x\<bar> < 2 powi (binade_from n e x + 1)) \<and>
   (e < binade_from n e x \<longrightarrow> 2 powi (binade_from n e x) \<le> \<bar>x\<bar>)"
proof (induction n arbitrary: e)
  case 0
  show ?case by simp
next
  case (Suc n)
  show ?case
  proof (cases "\<bar>x\<bar> < 2 powi (e + 1)")
    case True
    then show ?thesis by simp
  next
    case False
    let ?r = "binade_from n (e + 1) x"
    from Suc [of "e + 1"] have a: "e + 1 \<le> ?r" and b: "?r \<le> e + 1 + int n"
      and c: "?r < e + 1 + int n \<longrightarrow> \<bar>x\<bar> < 2 powi (?r + 1)"
      and d: "e + 1 < ?r \<longrightarrow> 2 powi ?r \<le> \<bar>x\<bar>" by simp_all
    have low: "2 powi ?r \<le> \<bar>x\<bar>"
    proof (cases "e + 1 < ?r")
      case True
      with d show ?thesis by simp
    next
      case False
      with a have "?r = e + 1" by simp
      with \<open>\<not> \<bar>x\<bar> < 2 powi (e + 1)\<close> show ?thesis by simp
    qed
    from False a b c low show ?thesis by simp
  qed
qed

lemma fl_raw_error:
  assumes range: "emin \<le> emax" and fin: "\<bar>x\<bar> < 2 powi (emax + 1)"
  shows "\<bar>fl_raw p emin emax x - x\<bar> \<le> 2 powi (- int p) * \<bar>x\<bar> + 2 powi (emin - int p)"
proof -
  define e where "e = binade_from (nat (emax - emin)) emin x"
  define q :: real where "q = 2 powi (e - int p + 1)"
  have n: "emin + int (nat (emax - emin)) = emax" using range by simp
  from binade_from_props [of emin "nat (emax - emin)" x] n
  have lo: "emin \<le> e" and hi: "e \<le> emax"
    and up: "e < emax \<longrightarrow> \<bar>x\<bar> < 2 powi (e + 1)"
    and down: "emin < e \<longrightarrow> 2 powi e \<le> \<bar>x\<bar>" by (simp_all add: e_def)
  have qpos: "0 < q" by (simp add: q_def)
  have raw: "fl_raw p emin emax x = q * of_int (round_half_even (x / q))"
    by (simp add: fl_raw_def Let_def e_def q_def)
  have "\<bar>q * of_int (round_half_even (x / q)) - x\<bar> = q * \<bar>of_int (round_half_even (x / q)) - x / q\<bar>"
  proof -
    have "q * of_int (round_half_even (x / q)) - x = q * (of_int (round_half_even (x / q)) - x / q)"
      using qpos by (simp add: algebra_simps)
    then show ?thesis using qpos by (simp add: abs_mult)
  qed
  also have "\<dots> \<le> q * (1 / 2)"
    using qpos round_half_even_error [of "x / q"] by (intro mult_left_mono) simp_all
  also have "\<dots> = 2 powi (e - int p)"
  proof -
    have "q = 2 powi (e - int p) * 2" unfolding q_def by (simp add: power_int_add)
    then show ?thesis by simp
  qed
  finally have err: "\<bar>fl_raw p emin emax x - x\<bar> \<le> 2 powi (e - int p)" by (simp add: raw)
  show ?thesis
  proof (cases "emin < e")
    case True
    with down have "2 powi e \<le> \<bar>x\<bar>" by simp
    then have a: "2 powi e * 2 powi (- int p) \<le> \<bar>x\<bar> * 2 powi (- int p)"
      by (intro mult_right_mono) simp_all
    have b: "(2::real) powi (e - int p) = 2 powi e * 2 powi (- int p)"
      by (simp add: power_int_diff power_int_minus field_simps)
    have c: "(0::real) \<le> 2 powi (emin - int p)" by simp
    from err b have "\<bar>fl_raw p emin emax x - x\<bar> \<le> 2 powi e * 2 powi (- int p)" by simp
    with a c have "\<bar>fl_raw p emin emax x - x\<bar> \<le> \<bar>x\<bar> * 2 powi (- int p) + 2 powi (emin - int p)"
      by linarith
    then show ?thesis by (simp add: mult.commute)
  next
    case False
    with lo have "e = emin" by simp
    with err have a: "\<bar>fl_raw p emin emax x - x\<bar> \<le> 2 powi (emin - int p)" by simp
    have b: "0 \<le> 2 powi (- int p) * \<bar>x\<bar>" by simp
    from a b show ?thesis by linarith
  qed
qed

lemma u32_bounds: "0 < u32" "u32 \<le> 1 / 8"
  by (simp_all add: u32_def)

lemma eta32_bounds: "0 < eta32" "eta32 \<le> u32"
  by (simp_all add: eta32_def u32_def)

lemma fl32_finite:
  assumes "\<bar>x\<bar> \<le> 2 powi 120"
  shows "\<exists>r. fl32 x = Some r \<and> \<bar>r - x\<bar> \<le> u32 * \<bar>x\<bar> + eta32"
proof -
  let ?r = "fl_raw 24 (- 126) 127 x"
  have big: "(2::real) powi 120 < 2 powi 127" by simp
  have fin: "\<bar>x\<bar> < 2 powi (127 + 1)" using assms by simp
  have "\<bar>?r - x\<bar> \<le> 2 powi (- int 24) * \<bar>x\<bar> + 2 powi (- 126 - int 24)"
    by (rule fl_raw_error) (use fin in simp_all)
  then have err: "\<bar>?r - x\<bar> \<le> u32 * \<bar>x\<bar> + eta32" by (simp add: u32_def eta32_def)
  have "u32 * \<bar>x\<bar> \<le> 1 * \<bar>x\<bar>" using u32_bounds by (intro mult_right_mono) simp_all
  moreover have "eta32 \<le> 1" using eta32_bounds u32_bounds by simp
  ultimately have "\<bar>?r\<bar> \<le> 2 * \<bar>x\<bar> + 1" using err by linarith
  also have "\<dots> \<le> 2 * 2 powi 120 + 1" using assms by simp
  also have "\<dots> < 2 powi (127 + 1)" by simp
  finally have "fl32 x = Some ?r" by (simp add: fl32_def fl_def Let_def)
  with err show ?thesis by simp
qed

lemma fl64_unit:
  assumes "\<bar>x\<bar> \<le> 1"
  shows "\<exists>r. fl64 x = Some r \<and> \<bar>r - x\<bar> \<le> 2 powi (- 52)"
proof -
  let ?r = "fl_raw 53 (- 1022) 1023 x"
  have fin: "\<bar>x\<bar> < 2 powi (1023 + 1)"
  proof -
    have "(1::real) < 2 powi (1023 + 1)" by (intro one_less_power_int) simp_all
    with assms show ?thesis by linarith
  qed
  have "\<bar>?r - x\<bar> \<le> 2 powi (- int 53) * \<bar>x\<bar> + 2 powi (- 1022 - int 53)"
    by (rule fl_raw_error) (use fin in simp_all)
  moreover have "2 powi (- int 53) * \<bar>x\<bar> \<le> 2 powi (- int 53) * 1"
    using assms by (intro mult_left_mono) simp_all
  moreover have "(2::real) powi (- 1022 - int 53) \<le> 2 powi (- int 53)"
    by (intro power_int_increasing) simp_all
  moreover have "(2::real) powi (- int 53) + 2 powi (- int 53) = 2 powi (- 52)" by simp
  ultimately have err: "\<bar>?r - x\<bar> \<le> 2 powi (- 52)" by linarith
  have "(2::real) powi (- 52) \<le> 1" by simp
  with err assms have "\<bar>?r\<bar> \<le> 2" by linarith
  moreover have "(2::real) < 2 powi (1023 + 1)"
  proof -
    have "(2::real) powi 1 < 2 powi (1023 + 1)" by (intro power_int_strict_increasing) simp_all
    then show ?thesis by simp
  qed
  ultimately have "fl64 x = Some ?r" by (simp add: fl64_def fl_def Let_def)
  with err show ?thesis by simp
qed

lemma gamma32_close:
  "\<exists>g. gamma32 n = Some g \<and> \<bar>g - 2 / (real n + 2)\<bar> \<le> 2 * u32"
proof -
  let ?c = "2 / (real n + 2)"
  have c: "0 \<le> ?c" "?c \<le> 1" by simp_all
  then have "\<bar>?c\<bar> \<le> 1" by simp
  from fl64_unit [OF this] obtain d where d: "fl64 ?c = Some d" and derr: "\<bar>d - ?c\<bar> \<le> 2 powi (- 52)"
    by blast
  have small: "(2::real) powi (- 52) \<le> 1" by simp
  from derr c small have dabs: "\<bar>d\<bar> \<le> 2" by linarith
  have "(2::real) \<le> 2 powi 120" by simp
  with dabs have "\<bar>d\<bar> \<le> 2 powi 120" by linarith
  from fl32_finite [OF this] obtain g where g: "fl32 d = Some g" and gerr: "\<bar>g - d\<bar> \<le> u32 * \<bar>d\<bar> + eta32"
    by blast
  have dle: "\<bar>d\<bar> \<le> 1 + 2 powi (- 52)" using derr c by linarith
  have upos: "0 \<le> u32" using u32_bounds by simp
  have "u32 * \<bar>d\<bar> \<le> u32 * (1 + 2 powi (- 52))"
    using dle upos by (rule mult_left_mono)
  moreover have "2 powi (- 52) + u32 * (1 + 2 powi (- 52)) + eta32 \<le> 2 * u32"
    by (simp add: u32_def eta32_def)
  ultimately have "\<bar>g - ?c\<bar> \<le> 2 * u32" using derr gerr by linarith
  with d g show ?thesis by (simp add: gamma32_def)
qed

lemma entry32_bound:
  assumes g: "\<bar>g - c\<bar> \<le> 2 * u32" and c: "0 \<le> c" "c \<le> 1"
    and x: "\<bar>x\<bar> \<le> 2 powi 100" and s: "\<bar>s\<bar> \<le> 2 powi 100"
  shows "\<exists>x'. add32 (Some x) (sub32 (mul32 (Some g) (Some s)) (mul32 (Some g) (Some x))) = Some x' \<and>
           \<bar>x'\<bar> \<le> (1 - c + 8 * u32) * \<bar>x\<bar> + (c + 8 * u32) * \<bar>s\<bar> + 5 * eta32"
proof -
  define P where "P = \<bar>x\<bar>"
  define S where "S = \<bar>s\<bar>"
  define GS where "GS = \<bar>g * s\<bar>"
  define GP where "GP = \<bar>g * x\<bar>"
  define TP where "TP = \<bar>(1 - g) * x\<bar>"
  define cP where "cP = c * P"
  define cS where "cS = c * S"
  have u: "u32 = 1 / 16777216" by (simp add: u32_def)
  have eta: "0 < eta32" "eta32 \<le> 1" using eta32_bounds u32_bounds by simp_all
  define M :: real where "M = 2 powi 100"
  have M: "1 \<le> M" "64 * M \<le> 2 powi 120" by (simp_all add: M_def)
  have P: "0 \<le> P" "P \<le> M" using x by (simp_all add: P_def M_def)
  have S: "0 \<le> S" "S \<le> M" using s by (simp_all add: S_def M_def)
  have cP: "0 \<le> cP" "cP \<le> P" unfolding cP_def using c P
    by (simp, metis mult_left_le_one_le mult.commute)
  have cS: "0 \<le> cS" "cS \<le> S" unfolding cS_def using c S
    by (simp, metis mult_left_le_one_le mult.commute)
  have G: "\<bar>g\<bar> \<le> c + 2 * u32" using g c by linarith
  have T: "\<bar>1 - g\<bar> \<le> 1 - c + 2 * u32" using g c by linarith
  have GS: "0 \<le> GS" "GS \<le> cS + 2 * u32 * S"
  proof -
    show "0 \<le> GS" by (simp add: GS_def)
    have "GS = \<bar>g\<bar> * S" by (simp add: GS_def S_def abs_mult)
    also have "\<dots> \<le> (c + 2 * u32) * S" using G S(1) by (rule mult_right_mono)
    finally show "GS \<le> cS + 2 * u32 * S" by (simp add: cS_def algebra_simps)
  qed
  have GP: "0 \<le> GP" "GP \<le> cP + 2 * u32 * P"
  proof -
    show "0 \<le> GP" by (simp add: GP_def)
    have "GP = \<bar>g\<bar> * P" by (simp add: GP_def P_def abs_mult)
    also have "\<dots> \<le> (c + 2 * u32) * P" using G P(1) by (rule mult_right_mono)
    finally show "GP \<le> cP + 2 * u32 * P" by (simp add: cP_def algebra_simps)
  qed
  have TP: "0 \<le> TP" "TP \<le> P - cP + 2 * u32 * P"
  proof -
    show "0 \<le> TP" by (simp add: TP_def)
    have "TP = \<bar>1 - g\<bar> * P" by (simp add: TP_def P_def abs_mult)
    also have "\<dots> \<le> (1 - c + 2 * u32) * P" using T P(1) by (rule mult_right_mono)
    finally show "TP \<le> P - cP + 2 * u32 * P" by (simp add: cP_def algebra_simps)
  qed
  have "GS \<le> 64 * M" using GS cS S M unfolding u by linarith
  with M have "\<bar>g * s\<bar> \<le> 2 powi 120" unfolding GS_def by linarith
  from fl32_finite [OF this] obtain a where a: "fl32 (g * s) = Some a"
    and ea: "\<bar>a - g * s\<bar> \<le> u32 * GS + eta32" by (auto simp add: GS_def)
  have "GP \<le> 64 * M" using GP cP P M unfolding u by linarith
  with M have "\<bar>g * x\<bar> \<le> 2 powi 120" unfolding GP_def by linarith
  from fl32_finite [OF this] obtain b where b: "fl32 (g * x) = Some b"
    and eb: "\<bar>b - g * x\<bar> \<le> u32 * GP + eta32" by (auto simp add: GP_def)
  have ab: "\<bar>a - b\<bar> \<le> GS + GP + \<bar>a - g * s\<bar> + \<bar>b - g * x\<bar>"
    unfolding GS_def GP_def by linarith
  have "\<bar>a - b\<bar> \<le> 64 * M"
    using ab ea eb GS GP cS cP S P eta M unfolding u by linarith
  with M have "\<bar>a - b\<bar> \<le> 2 powi 120" by linarith
  from fl32_finite [OF this] obtain d where d: "fl32 (a - b) = Some d"
    and ed: "\<bar>d - (a - b)\<bar> \<le> u32 * \<bar>a - b\<bar> + eta32" by blast
  have xd: "\<bar>x + d\<bar> \<le> TP + GS + \<bar>a - g * s\<bar> + \<bar>b - g * x\<bar> + \<bar>d - (a - b)\<bar>"
  proof -
    have "x + d = (1 - g) * x + g * s + (a - g * s) - (b - g * x) + (d - (a - b))"
      by (simp add: algebra_simps)
    then show ?thesis unfolding TP_def GS_def by linarith
  qed
  have "\<bar>x + d\<bar> \<le> 64 * M"
    using xd ab ea eb ed TP GS GP cS cP S P eta M unfolding u by linarith
  with M have "\<bar>x + d\<bar> \<le> 2 powi 120" by linarith
  from fl32_finite [OF this] obtain x' where x': "fl32 (x + d) = Some x'"
    and ex: "\<bar>x' - (x + d)\<bar> \<le> u32 * \<bar>x + d\<bar> + eta32" by blast
  have res: "add32 (Some x) (sub32 (mul32 (Some g) (Some s)) (mul32 (Some g) (Some x))) = Some x'"
    using a b d x' by (simp add: add32_def sub32_def mul32_def lift32_def)
  define A1 where "A1 = \<bar>a - g * s\<bar>"
  define B1 where "B1 = \<bar>b - g * x\<bar>"
  define AB where "AB = \<bar>a - b\<bar>"
  define D1 where "D1 = \<bar>d - (a - b)\<bar>"
  define XD where "XD = \<bar>x + d\<bar>"
  define X' where "X' = \<bar>x'\<bar>"
  have f1: "A1 \<le> u32 * GS + eta32" using ea by (simp add: A1_def)
  have f2: "B1 \<le> u32 * GP + eta32" using eb by (simp add: B1_def)
  have f3: "AB \<le> GS + GP + A1 + B1" using ab by (simp add: AB_def A1_def B1_def)
  have f4: "D1 \<le> u32 * AB + eta32" using ed by (simp add: D1_def AB_def)
  have f5: "XD \<le> TP + GS + A1 + B1 + D1" using xd by (simp add: XD_def A1_def B1_def D1_def)
  have f6: "X' \<le> XD + u32 * XD + eta32" using ex unfolding X'_def XD_def by linarith
  have f0: "0 \<le> A1" "0 \<le> B1" "0 \<le> AB" "0 \<le> D1" "0 \<le> XD"
    by (simp_all add: A1_def B1_def AB_def D1_def XD_def)
  have "X' \<le> P - cP + 8 * u32 * P + (cS + 8 * u32 * S) + 5 * eta32"
    using f0 f1 f2 f3 f4 f5 f6 TP GS GP cP cS P S eta unfolding u by linarith
  then have "\<bar>x'\<bar> \<le> P - cP + 8 * u32 * P + (cS + 8 * u32 * S) + 5 * eta32"
    by (simp add: X'_def)
  then have "\<bar>x'\<bar> \<le> (1 - c + 8 * u32) * \<bar>x\<bar> + (c + 8 * u32) * \<bar>s\<bar> + 5 * eta32"
    by (simp add: cP_def cS_def P_def S_def algebra_simps)
  with res show ?thesis by blast
qed

lemma l1_norm_nonneg: "0 \<le> l1_norm xs"
  by (induction xs) (simp_all add: l1_norm_def)

lemma l1_norm_Cons: "l1_norm (a # xs) = \<bar>a\<bar> + l1_norm xs"
  by (simp add: l1_norm_def)

lemma FW_update32_entries:
  assumes "gamma32 n = Some g" and "length s = length x"
  shows "FW_update32 n (map Some x) s =
           map2 (\<lambda>xi si. add32 (Some xi) (sub32 (mul32 (Some g) (Some si)) (mul32 (Some g) (Some xi)))) x s"
  using assms(2) unfolding FW_update32_def Let_def assms(1)
  by (induction s x rule: list_induct2) simp_all

lemma entries32_bound:
  assumes g: "\<bar>g - c\<bar> \<le> 2 * u32" and c: "0 \<le> c" "c \<le> 1"
  shows "length s = length x \<Longrightarrow> l1_norm x \<le> 2 powi 100 \<Longrightarrow> l1_norm s \<le> 2 powi 100 \<Longrightarrow>
         \<exists>x'. map2 (\<lambda>xi si. add32 (Some xi) (sub32 (mul32 (Some g) (Some si)) (mul32 (Some g) (Some xi)))) x s
                 = map Some x' \<and>
               length x' = length x \<and>
               l1_norm x' \<le> (1 - c + 8 * u32) * l1_norm x + (c + 8 * u32) * l1_norm s
                              + 5 * real (length x) * eta32"
proof (induction s x rule: list_induct2)
  case Nil
  show ?case by (simp add: l1_norm_def)
next
  case (Cons b s a x)
  have na: "\<bar>a\<bar> \<le> 2 powi 100" and nx: "l1_norm x \<le> 2 powi 100"
    using Cons.prems(1) l1_norm_nonneg [of x] by (simp_all add: l1_norm_Cons)
  have nb: "\<bar>b\<bar> \<le> 2 powi 100" and ns: "l1_norm s \<le> 2 powi 100"
    using Cons.prems(2) l1_norm_nonneg [of s] by (simp_all add: l1_norm_Cons)
  from entry32_bound [OF g c na nb] obtain a' where
    a': "add32 (Some a) (sub32 (mul32 (Some g) (Some b)) (mul32 (Some g) (Some a))) = Some a'"
    and ba: "\<bar>a'\<bar> \<le> (1 - c + 8 * u32) * \<bar>a\<bar> + (c + 8 * u32) * \<bar>b\<bar> + 5 * eta32" by blast
  from Cons.IH [OF nx ns] obtain x' where
    x': "map2 (\<lambda>xi si. add32 (Some xi) (sub32 (mul32 (Some g) (Some si)) (mul32 (Some g) (Some xi)))) x s
           = map Some x'"
    and len: "length x' = length x"
    and bx: "l1_norm x' \<le> (1 - c + 8 * u32) * l1_norm x + (c + 8 * u32) * l1_norm s
                              + 5 * real (length x) * eta32" by blast
  have "l1_norm (a' # x') \<le> (1 - c + 8 * u32) * l1_norm (a # x) + (c + 8 * u32) * l1_norm (b # s)
                              + 5 * real (length (a # x)) * eta32"
    using ba bx by (simp add: l1_norm_Cons algebra_simps)
  moreover have "map2 (\<lambda>xi si. add32 (Some xi) (sub32 (mul32 (Some g) (Some si)) (mul32 (Some g) (Some xi))))
                   (a # x) (b # s) = map Some (a' # x')"
    using a' x' by simp
  moreover have "length (a' # x') = length (a # x)" using len by simp
  ultimately show ?case by blast
qed

lemma inflate_mono: "0 \<le> B \<Longrightarrow> B \<le> inflate m B"
proof -
  assume "0 \<le> B"
  then have "0 \<le> 2 powi (- 20) * B" by simp
  moreover have "(0::real) \<le> 5 * real m * 2 powi (- 150)" by simp
  ultimately show ?thesis by (simp add: inflate_def algebra_simps)
qed

lemma FW_update32_bound:
  assumes len: "length s = length x" and x: "l1_norm x \<le> B" and s: "l1_norm s \<le> kappa"
    and kB: "kappa \<le> B" and B: "B \<le> 2 powi 100"
  shows "\<exists>x'. FW_update32 n (map Some x) s = map Some x' \<and> length x' = length x \<and>
               l1_norm x' \<le> inflate (length x) B"
proof -
  let ?c = "2 / (real n + 2)"
  have c: "0 \<le> ?c" "?c \<le> 1" by simp_all
  from gamma32_close [of n] obtain g where g: "gamma32 n = Some g" and gc: "\<bar>g - ?c\<bar> \<le> 2 * u32"
    by blast
  have nx: "l1_norm x \<le> 2 powi 100" using x B by linarith
  have ns: "l1_norm s \<le> 2 powi 100" using s kB B by linarith
  from entries32_bound [OF gc c len nx ns] obtain x' where
    x': "map2 (\<lambda>xi si. add32 (Some xi) (sub32 (mul32 (Some g) (Some si)) (mul32 (Some g) (Some xi)))) x s
           = map Some x'"
    and lx: "length x' = length x"
    and bx: "l1_norm x' \<le> (1 - ?c + 8 * u32) * l1_norm x + (?c + 8 * u32) * l1_norm s
                              + 5 * real (length x) * eta32" by blast
  have upos: "0 \<le> u32" using u32_bounds by simp
  have "(1 - ?c + 8 * u32) * l1_norm x \<le> (1 - ?c + 8 * u32) * B"
    using x c upos by (intro mult_left_mono) simp_all
  moreover have "(?c + 8 * u32) * l1_norm s \<le> (?c + 8 * u32) * B"
    using s kB c upos by (intro mult_left_mono) simp_all
  moreover have "(1 - ?c + 8 * u32) * B + (?c + 8 * u32) * B = (1 + 16 * u32) * B"
    by (simp add: algebra_simps)
  moreover have "16 * u32 = 2 powi (- 20)" by (simp add: u32_def)
  ultimately have "l1_norm x' \<le> inflate (length x) B"
    using bx by (simp add: inflate_def eta32_def)
  with FW_update32_entries [OF g len] x' lx show ?thesis by simp
qed

lemma binade_from_at:
  assumes lo: "emin \<le> e" and hi: "e \<le> emin + int n"
    and down: "emin < e \<longrightarrow> 2 powi e \<le> \<bar>x\<bar>" and up: "\<bar>x\<bar> < 2 powi (e + 1)"
  shows "binade_from n emin x = e"
proof -
  let ?r = "binade_from n emin x"
  from binade_from_props [of emin n x]
  have a: "emin \<le> ?r" and b: "?r \<le> emin + int n"
    and c: "?r < emin + int n \<longrightarrow> \<bar>x\<bar> < 2 powi (?r + 1)"
    and d: "emin < ?r \<longrightarrow> 2 powi ?r \<le> \<bar>x\<bar>" by simp_all
  have "\<not> ?r < e"
  proof
    assume less: "?r < e"
    with hi c have "\<bar>x\<bar> < 2 powi (?r + 1)" by simp
    moreover have "(2::real) powi (?r + 1) \<le> 2 powi e"
      using less by (intro power_int_increasing) simp_all
    moreover from less a down have "2 powi e \<le> \<bar>x\<bar>" by simp
    ultimately show False by linarith
  qed
  moreover have "\<not> e < ?r"
  proof
    assume less: "e < ?r"
    with lo d have "2 powi ?r \<le> \<bar>x\<bar>" by simp
    moreover have "(2::real) powi (e + 1) \<le> 2 powi ?r"
      using less by (intro power_int_increasing) simp_all
    ultimately show False using up by linarith
  qed
  ultimately show ?thesis by simp
qed

lemma fl_at:
  assumes "emin \<le> e" and "e \<le> emax"
    and "emin < e \<longrightarrow> 2 powi e \<le> \<bar>x\<bar>" and "\<bar>x\<bar> < 2 powi (e + 1)"
    and "r = 2 powi (e - int p + 1) * of_int (round_half_even (x / 2 powi (e - int p + 1)))"
    and "\<bar>r\<bar> < 2 powi (emax + 1)"
  shows "fl p emin emax x = Some r"
proof -
  have "binade_from (nat (emax - emin)) emin x = e"
    using assms(1-4) by (intro binade_from_at) simp_all
  with assms(5,6) show ?thesis by (simp add: fl_def fl_raw_def Let_def)
qed

lemma fl32_zero: "fl32 0 = Some 0"
  unfolding fl32_def by (rule fl_at [where e = "- 126"]) (simp_all add: round_half_even_def Let_def)

lemma gamma32_3: "gamma32 3 = Some (13421773 / 33554432)"
proof -
  have a: "fl64 (2 / 5) = Some (3602879701896397 / 9007199254740992)"
    unfolding fl64_def by (rule fl_at [where e = "- 2"]) (simp_all add: round_half_even_def Let_def)
  have b: "fl32 (3602879701896397 / 9007199254740992) = Some (13421773 / 33554432)"
    unfolding fl32_def by (rule fl_at [where e = "- 2"]) (simp_all add: round_half_even_def Let_def)
  show ?thesis using a b by (simp add: gamma32_def)
qed

lemma fl32_gamma: "fl32 (13421773 / 33554432) = Some (13421773 / 33554432)"
  unfolding fl32_def by (rule fl_at [where e = "- 2"]) (simp_all add: round_half_even_def Let_def)

lemma fl32_neg_gamma: "fl32 (- (13421773 / 33554432)) = Some (- (13421773 / 33554432))"
  unfolding fl32_def by (rule fl_at [where e = "- 2"]) (simp_all add: round_half_even_def Let_def)

lemma fl32_tie: "fl32 (- (20132659 / 33554432)) = Some (- (5033165 / 8388608))"
  unfolding fl32_def by (rule fl_at [where e = "- 1"]) (simp_all add: round_half_even_def Let_def)

lemma FW_update32_example:
  "FW_update32 3 [Some (- 1), Some 0] [0, 1] =
     [Some (- (5033165 / 8388608)), Some (13421773 / 33554432)]"
  by (simp add: FW_update32_def Let_def gamma32_3 mul32_def sub32_def add32_def lift32_def
        fl32_zero fl32_gamma fl32_neg_gamma fl32_tie)

lemma FW_param32_bound:
  assumes lmo: "\<forall>gr s. lmo gr kappa = Inr s \<longrightarrow> l1_norm s \<le> kappa"
    and x: "l1_norm x \<le> B" and kB: "kappa \<le> B" and B: "B \<le> 2 powi 100"
  shows "\<exists>x'. fst (FW_param32 lmo kappa n g (map Some x)) = map Some x' \<and> length x' = length x \<and>
               l1_norm x' \<le> inflate (length x) B"
proof -
  have B0: "0 \<le> B" using x l1_norm_nonneg [of x] by linarith
  have same: "l1_norm x \<le> inflate (length x) B" using x inflate_mono [OF B0, of "length x"] by linarith
  show ?thesis
  proof (cases "lmo g kappa")
    case (Inl e)
    with same show ?thesis by (auto simp add: FW_param32_def)
  next
    case (Inr s)
    with lmo have s: "l1_norm s \<le> kappa" by blast
    show ?thesis
    proof (cases "length s = length x")
      case True
      from FW_update32_bound [OF True x s kB B, of n] Inr True show ?thesis
        by (simp add: FW_param32_def)
    next
      case False
      with Inr same show ?thesis by (auto simp add: FW_param32_def)
    qed
  qed
qed

lemma inflate_funpow_ge: "0 \<le> B \<Longrightarrow> B \<le> (inflate m ^^ j) B"
proof (induction j)
  case 0
  show ?case by simp
next
  case (Suc j)
  then have a: "B \<le> (inflate m ^^ j) B" by simp
  with Suc.prems have "0 \<le> (inflate m ^^ j) B" by linarith
  from inflate_mono [OF this, of m] a show ?case by simp
qed

lemma FW_updates32_bound:
  assumes lmo: "\<forall>gr s. lmo gr kappa = Inr s \<longrightarrow> l1_norm s \<le> kappa"
  shows "l1_norm x \<le> B \<Longrightarrow> kappa \<le> B \<Longrightarrow> length x = m \<Longrightarrow>
         (inflate m ^^ length calls) B \<le> 2 powi 100 \<Longrightarrow>
         \<exists>x'. FW_updates32 lmo kappa calls (map Some x) = map Some x' \<and> length x' = m \<and>
               l1_norm x' \<le> (inflate m ^^ length calls) B"
proof (induction calls arbitrary: x B)
  case Nil
  then show ?case by auto
next
  case (Cons call calls)
  obtain n g where call: "call = (n, g)" by (cases call)
  have B0: "0 \<le> B" using Cons.prems(1) l1_norm_nonneg [of x] by linarith
  have grow: "(inflate m ^^ length (call # calls)) B = (inflate m ^^ length calls) (inflate m B)"
    by (simp add: funpow_swap1)
  have "B \<le> (inflate m ^^ length (call # calls)) B" using B0 by (rule inflate_funpow_ge)
  with Cons.prems(4) have B: "B \<le> 2 powi 100" by linarith
  from FW_param32_bound [where lmo = lmo and kappa = kappa and n = n and g = g,
      OF lmo Cons.prems(1,2) B] Cons.prems(3) obtain x1 where
    x1: "fst (FW_param32 lmo kappa n g (map Some x)) = map Some x1" and l1: "length x1 = m"
    and b1: "l1_norm x1 \<le> inflate m B" by auto
  have k1: "kappa \<le> inflate m B" using Cons.prems(2) inflate_mono [OF B0, of m] by linarith
  have lim: "(inflate m ^^ length calls) (inflate m B) \<le> 2 powi 100"
    using Cons.prems(4) grow by simp
  from Cons.IH [OF b1 k1 l1 lim] obtain x' where
    "FW_updates32 lmo kappa calls (map Some x1) = map Some x'" "length x' = m"
    "l1_norm x' \<le> (inflate m ^^ length calls) (inflate m B)" by blast
  with call x1 grow show ?case by simp
qed

section \<open>Feasibility of the Frank-Wolfe iterates\<close>

text \<open>
  In the arithmetic of the reals a parameter never leaves the ball: for a parameter of a
  group whose radius is \<open>kappa\<close> (or which has none, so that \<^verbatim>\<open>step\<close> never reaches the
  parameter) and an oracle that returns points of L1 norm at most \<open>kappa\<close>, the L1 norm
  stays at most \<open>kappa\<close> over any sequence of calls without closure, whatever gradients
  arrive before each call.
\<close>

lemma FW_run_exact_ball:
  assumes lmo: "\<forall>gr s. lmo gr kappa = Inr s \<longrightarrow> l1_norm s \<le> kappa"
  shows "param_groups opt = Some gs \<Longrightarrow> i < length gs \<Longrightarrow> j < length (params (gs ! i)) \<Longrightarrow>
         hyper (gs ! i) ''kappa_l1'' = None \<or> hyper (gs ! i) ''kappa_l1'' = Some kappa \<Longrightarrow>
         l1_norm (data (params (gs ! i) ! j)) \<le> kappa \<Longrightarrow>
         \<exists>gs'. param_groups (FW_run lmo Gs opt) = Some gs' \<and> i < length gs' \<and>
               j < length (params (gs' ! i)) \<and> l1_norm (data (params (gs' ! i) ! j)) \<le> kappa"
proof (induction Gs arbitrary: opt gs)
  case Nil
  then show ?case by simp
next
  case (Cons G Gs)
  let ?opt1 = "opt\<lparr>param_groups := map_option (load_grads G) (param_groups opt)\<rparr>"
  have o1: "param_groups ?opt1 = Some (load_grads G gs)" using Cons.prems(1) by simp
  note lg = load_grads_nth [OF Cons.prems(2,3), of G]
  have i1: "i < length (load_grads G gs)" using lg Cons.prems(2) by simp
  have j1: "j < length (params (load_grads G gs ! i))" using lg Cons.prems(3) by simp
  have key1: "hyper (load_grads G gs ! i) ''kappa_l1'' = None \<or>
              hyper (load_grads G gs ! i) ''kappa_l1'' = Some kappa" using lg Cons.prems(4) by simp
  have ball1: "l1_norm (data (params (load_grads G gs ! i) ! j)) \<le> kappa" using lg Cons.prems(5) by simp
  have "\<exists>gs'. param_groups (fst (FW_step lmo ?opt1 (None :: unit closure option))) = Some gs' \<and>
           i < length gs' \<and> j < length (params (gs' ! i)) \<and>
           (hyper (gs' ! i) ''kappa_l1'' = None \<or> hyper (gs' ! i) ''kappa_l1'' = Some kappa) \<and>
           l1_norm (data (params (gs' ! i) ! j)) \<le> kappa"
    using lmo o1 i1 j1 key1 ball1 by (rule FW_step_ball)
  then obtain gs2 where s2: "param_groups (fst (FW_step lmo ?opt1 (None :: unit closure option))) = Some gs2"
    and i2: "i < length gs2" and j2: "j < length (params (gs2 ! i))"
    and key2: "hyper (gs2 ! i) ''kappa_l1'' = None \<or> hyper (gs2 ! i) ''kappa_l1'' = Some kappa"
    and ball2: "l1_norm (data (params (gs2 ! i) ! j)) \<le> kappa" by blast
  from Cons.IH [OF s2 i2 j2 key2 ball2] show ?case by simp
qed

text \<open>
  C2, as stated, fails on the binary32 numbers the code computes with. Take \<open>kappa = 1\<close>
  and a parameter with the value \<open>[-1, 0]\<close>, of L1 norm 1, that has no gradient in the
  first three calls of \<^verbatim>\<open>step\<close> and the gradient \<open>[0, -1]\<close> in the fourth, where the
  counter is 3. The oracle's point is \<open>[0, 1]\<close> and \<open>gamma\<close> is the binary32 number next
  to \<open>2 / 5\<close>; the sum \<open>-1 + gamma\<close> lies halfway between two binary32 numbers and is
  rounded away from zero.
  The update leaves the value \<open>[-5033165 / 8388608, 13421773 / 33554432]\<close>, of L1 norm
  \<open>1 + 2 powi (- 25)\<close>.
\<close>

theorem SGDFWl1_float32_leaves_ball:
  "LMO_l1 [0, - 1] 1 = Inr [0, 1] \<and> l1_norm [0, 1] \<le> 1 \<and> l1_norm [- 1, 0] \<le> 1 \<and>
   FW_updates32 LMO_l1 1 [(3, [0, - 1])] [Some (- 1), Some 0] =
     [Some (- (5033165 / 8388608)), Some (13421773 / 33554432)] \<and>
   1 < l1_norm [- (5033165 / 8388608), 13421773 / 33554432]"
  by (simp add: LMO_l1_def l1_norm_def FW_param32_def FW_update32_example)

text \<open>
  C2, amended. Let the oracle return points of L1 norm at most \<open>kappa\<close> and let a
  parameter of \<open>m\<close> entries have L1 norm at most \<open>kappa\<close> before its first update. After
  any number \<open>N\<close> of updates by \<^verbatim>\<open>step\<close>, computed in binary32, every entry is finite
  and the L1 norm is at most \<open>b N\<close>, where \<open>b 0 = kappa\<close> and
  \<open>b (j + 1) = (1 + 2 powi (- 20)) * b j + 5 * m * 2 powi (- 150)\<close>, as long as \<open>b N\<close> is at
  most \<open>2 powi 100\<close>. The oracle is an argument.
\<close>

theorem SGDFWl1_float32_ball:
  assumes lmo: "\<forall>gr s. lmo gr kappa = Inr s \<longrightarrow> l1_norm s \<le> kappa"
    and x: "l1_norm x \<le> kappa"
    and lim: "(inflate (length x) ^^ length calls) kappa \<le> 2 powi 100"
  shows "\<exists>x'. FW_updates32 lmo kappa calls (map Some x) = map Some x' \<and> length x' = length x \<and>
               l1_norm x' \<le> (inflate (length x) ^^ length calls) kappa"
proof -
  have k: "kappa \<le> kappa" by simp
  have l: "length x = length x" by simp
  show ?thesis using lmo x k l lim by (rule FW_updates32_bound)
qed

theorem SGDFWl1_float32_ball_witness:
  "l1_norm [- 1, 0] \<le> 1 \<and>
   (inflate 2 ^^ 2) 1 \<le> 2 powi 100 \<and>
   (\<exists>x'. FW_updates32 LMO_l1 1 [(3, [0, - 1]), (4, [2, 1])] (map Some [- 1, 0]) = map Some x' \<and>
          length x' = 2 \<and> l1_norm x' \<le> (inflate 2 ^^ 2) 1)"
proof -
  have lmo: "\<forall>gr s. LMO_l1 gr 1 = Inr s \<longrightarrow> l1_norm s \<le> 1"
    using LMO_l1_in_ball by blast
  have x: "l1_norm [- 1, 0] \<le> 1" by (simp add: l1_norm_def)
  have lim: "(inflate (length [- 1, 0 :: real]) ^^ length [(3 :: nat, [0, - 1 :: real]), (4, [2, 1])]) 1
               \<le> 2 powi 100"
    by (simp add: inflate_def eval_nat_numeral)
  from SGDFWl1_float32_ball [where lmo = LMO_l1, OF lmo x lim] x lim
  show ?thesis by (simp add: eval_nat_numeral)
qed

section \<open>The update rule of SGDl1\<close>

text \<open>
  C5. A call of \<^verbatim>\<open>SGDl1.step\<close> on groups that carry the keys it reads (\<^verbatim>\<open>l1\<close>, \<^verbatim>\<open>momentum\<close>,
  \<^verbatim>\<open>dampening\<close>, \<^verbatim>\<open>lr\<close>) returns the loss, and for every parameter with a gradient in a
  group whose momentum is 0 the new value is, entry by entry,
  \<open>x - lr * (g + lam * sgn x)\<close> for the old value \<open>x\<close> and the gradient \<open>g\<close>, with \<open>sgn 0 = 0\<close>.
  The old value is the one the closure, if any, has left.
\<close>

theorem SGDl1_step_without_momentum:
  assumes cl: "call_closure closure gs = (gs0, Inr loss)" and ready: "SGDl1_ready gs0"
    and i: "i < length gs0" and j: "j < length (params (gs0 ! i))"
    and lam: "hyper (gs0 ! i) ''l1'' = Some lam"
    and mom: "hyper (gs0 ! i) ''momentum'' = Some 0"
    and lr: "hyper (gs0 ! i) ''lr'' = Some lr"
    and g: "grad (params (gs0 ! i) ! j) = Some g"
  shows "\<exists>gs'. SGDl1_step gs closure = (gs', Inr loss) \<and>
           data (params (gs' ! i) ! j) =
             map2 (\<lambda>xn gn. xn - lr * (gn + lam * sgn xn)) (data (params (gs0 ! i) ! j)) g"
proof -
  let ?p = "params (gs0 ! i) ! j"
  from i have mem: "gs0 ! i \<in> set gs0" by simp
  from SGDl1_ready_group [OF ready mem] obtain dampening where
    damp: "hyper (gs0 ! i) ''dampening'' = Some dampening" by blast
  from SGDl1_ready_shapes [OF ready i j] g have len: "length g = length (data ?p)"
    by (simp add: shapes_ok_def)
  from SGDl1_step_param [OF cl ready i j lam mom damp] obtain gs' where
    step: "SGDl1_step gs closure = (gs', Inr loss)"
    and p': "params (gs' ! i) ! j = fst (SGDl1_param lam 0 dampening (gs0 ! i) ?p)" by blast
  from p' SGDl1_param_plain [OF g len lr, of lam dampening]
  have "data (params (gs' ! i) ! j) = descent lr (data ?p) (effective_gradient lam (data ?p) g)"
    by simp
  with step descent_effective [OF len] show ?thesis by simp
qed

theorem SGDl1_step_without_momentum_witness:
  "SGDl1_init (Groups [\<lparr>params = [\<lparr>data = [1, 0, - 2], grad = Some [1/2, 1/2, 1/2], momentum_buffer = None\<rparr>],
                          hyper = [''momentum'' \<mapsto> 0, ''dampening'' \<mapsto> 0]\<rparr>]) (1/10) (1/2) =
     Inr [\<lparr>params = [\<lparr>data = [1, 0, - 2], grad = Some [1/2, 1/2, 1/2], momentum_buffer = None\<rparr>],
           hyper = [''lr'' \<mapsto> 1/10, ''l1'' \<mapsto> 1/2] ++ [''momentum'' \<mapsto> 0, ''dampening'' \<mapsto> 0]\<rparr>] \<and>
   (\<exists>gs'. SGDl1_step
            [\<lparr>params = [\<lparr>data = [1, 0, - 2], grad = Some [1/2, 1/2, 1/2], momentum_buffer = None\<rparr>],
              hyper = [''lr'' \<mapsto> 1/10, ''l1'' \<mapsto> 1/2] ++ [''momentum'' \<mapsto> 0, ''dampening'' \<mapsto> 0]\<rparr>]
            (None :: real closure option) = (gs', Inr None) \<and>
          data (params (gs' ! 0) ! 0) = [9/10, - (1/20), - 2])"
  using SGDl1_step_without_momentum
    [where closure = "None :: real closure option" and loss = None and i = 0 and j = 0
       and lam = "1/2" and lr = "1/10" and g = "[1/2, 1/2, 1/2]"
       and gs = "[\<lparr>params = [\<lparr>data = [1, 0, - 2], grad = Some [1/2, 1/2, 1/2], momentum_buffer = None\<rparr>],
                  hyper = [''lr'' \<mapsto> 1/10, ''l1'' \<mapsto> 1/2] ++ [''momentum'' \<mapsto> 0, ''dampening'' \<mapsto> 0]\<rparr>]"
       and ?gs0.0 = "[\<lparr>params = [\<lparr>data = [1, 0, - 2], grad = Some [1/2, 1/2, 1/2], momentum_buffer = None\<rparr>],
                  hyper = [''lr'' \<mapsto> 1/10, ''l1'' \<mapsto> 1/2] ++ [''momentum'' \<mapsto> 0, ''dampening'' \<mapsto> 0]\<rparr>]"]
  by (simp add: call_closure_def SGDl1_ready_def shapes_ok_def SGDl1_init_def Optimizer_init_def)

text \<open>
  C4. A call of \<^verbatim>\<open>SGDl1.step\<close> on groups that carry the keys it reads, for a parameter with
  a gradient in a group whose momentum is not 0: when the parameter has no momentum buffer
  yet (its first update) the buffer becomes the effective gradient \<open>g + lam * sgn x\<close>
  itself; when it has a buffer \<open>b\<close>, the buffer becomes
  \<open>momentum * b + (1 - dampening) * (g + lam * sgn x)\<close>. In both cases the new buffer is
  the descent direction: the new value is \<open>x - lr * buffer\<close>.
\<close>

theorem SGDl1_step_momentum:
  assumes cl: "call_closure closure gs = (gs0, Inr loss)" and ready: "SGDl1_ready gs0"
    and i: "i < length gs0" and j: "j < length (params (gs0 ! i))"
    and lam: "hyper (gs0 ! i) ''l1'' = Some lam"
    and mom: "hyper (gs0 ! i) ''momentum'' = Some momentum" and nz: "momentum \<noteq> 0"
    and damp: "hyper (gs0 ! i) ''dampening'' = Some dampening"
    and lr: "hyper (gs0 ! i) ''lr'' = Some lr"
    and g: "grad (params (gs0 ! i) ! j) = Some g"
  shows "\<exists>gs'. SGDl1_step gs closure = (gs', Inr loss) \<and>
           (let x = data (params (gs0 ! i) ! j);
                eff = effective_gradient lam x g;
                buf = (case momentum_buffer (params (gs0 ! i) ! j) of
                         None \<Rightarrow> eff
                       | Some b \<Rightarrow> momentum_recurrence momentum dampening b eff)
            in momentum_buffer (params (gs' ! i) ! j) = Some buf \<and>
               data (params (gs' ! i) ! j) = descent lr x buf)"
proof -
  let ?p = "params (gs0 ! i) ! j"
  from SGDl1_ready_shapes [OF ready i j] have sh: "shapes_ok ?p" by simp
  with g have len: "length g = length (data ?p)" by (simp add: shapes_ok_def)
  from SGDl1_step_param [OF cl ready i j lam mom damp] obtain gs' where
    step: "SGDl1_step gs closure = (gs', Inr loss)"
    and p': "params (gs' ! i) ! j = fst (SGDl1_param lam momentum dampening (gs0 ! i) ?p)" by blast
  show ?thesis
  proof (cases "momentum_buffer ?p")
    case None
    from p' SGDl1_param_first [OF g len lr nz None, of lam dampening] step None
    show ?thesis by (simp add: Let_def)
  next
    case (Some b)
    with sh have blen: "length b = length (data ?p)" by (simp add: shapes_ok_def)
    from p' SGDl1_param_next [OF g len lr nz Some blen, of lam dampening] step Some
    show ?thesis by (simp add: Let_def)
  qed
qed

theorem SGDl1_step_momentum_witness:
  "(let H = [''lr'' \<mapsto> 1/10, ''l1'' \<mapsto> 1/2, ''momentum'' \<mapsto> 1/2, ''dampening'' \<mapsto> 1/4];
        first = [\<lparr>params = [\<lparr>data = [1, 0, - 2], grad = Some [1/2, 1/2, 1/2], momentum_buffer = None\<rparr>],
                  hyper = H\<rparr>];
        later = [\<lparr>params = [\<lparr>data = [9/10, - (1/20), - 2], grad = Some [1, 1/2, 0],
                                 momentum_buffer = Some [1, 1/2, 0]\<rparr>],
                  hyper = H\<rparr>]
    in SGDl1_ready first \<and> SGDl1_ready later \<and>
       (\<exists>gs'. SGDl1_step first (None :: real closure option) = (gs', Inr None) \<and>
              momentum_buffer (params (gs' ! 0) ! 0) = Some [1, 1/2, 0] \<and>
              data (params (gs' ! 0) ! 0) = [9/10, - (1/20), - 2]) \<and>
       (\<exists>gs'. SGDl1_step later (None :: real closure option) = (gs', Inr None) \<and>
              momentum_buffer (params (gs' ! 0) ! 0) = Some [13/8, 1/4, - (3/8)] \<and>
              data (params (gs' ! 0) ! 0) = [59/80, - (3/40), - (157/80)]))"
proof -
  let ?H = "[''lr'' \<mapsto> 1/10, ''l1'' \<mapsto> 1/2, ''momentum'' \<mapsto> 1/2, ''dampening'' \<mapsto> (1/4 :: real)]"
  let ?first = "[\<lparr>params = [\<lparr>data = [1, 0, - 2], grad = Some [1/2, 1/2, 1/2], momentum_buffer = None\<rparr>],
                  hyper = ?H\<rparr>]"
  let ?later = "[\<lparr>params = [\<lparr>data = [9/10, - (1/20), - 2], grad = Some [1, 1/2, 0],
                                 momentum_buffer = Some [1, 1/2, 0]\<rparr>],
                  hyper = ?H\<rparr>]"
  have r: "SGDl1_ready ?first" "SGDl1_ready ?later" by (simp_all add: SGDl1_ready_def shapes_ok_def)
  have a: "\<exists>gs'. SGDl1_step ?first (None :: real closure option) = (gs', Inr None) \<and>
              momentum_buffer (params (gs' ! 0) ! 0) = Some [1, 1/2, 0] \<and>
              data (params (gs' ! 0) ! 0) = [9/10, - (1/20), - 2]"
    using r(1) SGDl1_step_momentum
      [where closure = "None :: real closure option" and loss = None and i = 0 and j = 0
         and lam = "1/2" and lr = "1/10" and g = "[1/2, 1/2, 1/2]" and momentum = "1/2"
         and dampening = "1/4" and gs = ?first and ?gs0.0 = ?first]
    by (simp add: call_closure_def effective_gradient_def momentum_recurrence_def descent_def)
  have b: "\<exists>gs'. SGDl1_step ?later (None :: real closure option) = (gs', Inr None) \<and>
              momentum_buffer (params (gs' ! 0) ! 0) = Some [13/8, 1/4, - (3/8)] \<and>
              data (params (gs' ! 0) ! 0) = [59/80, - (3/40), - (157/80)]"
    using r(2) SGDl1_step_momentum
      [where closure = "None :: real closure option" and loss = None and i = 0 and j = 0
         and lam = "1/2" and lr = "1/10" and g = "[1, 1/2, 0]" and momentum = "1/2"
         and dampening = "1/4" and gs = ?later and ?gs0.0 = ?later]
    by (simp add: call_closure_def effective_gradient_def momentum_recurrence_def descent_def)
  from r a b show ?thesis unfolding Let_def by blast
qed

section \<open>Absent gradients\<close>

text \<open>
  C8. In a call of \<^verbatim>\<open>step\<close> of each of the three classes, a parameter whose gradient is
  absent when the loops start is skipped: the body of the loop returns for it without an
  error and without a change, and whatever the call does elsewhere (also when it raises
  for another parameter or group) the parameter ends the call with the value, the absent
  gradient and the state entry (none, if it had none) it had. The oracle of
  \<^verbatim>\<open>SGDFWNuclear\<close> is an argument.
\<close>

theorem absent_gradient_is_skipped:
  assumes gs0: "gs0 = fst (call_closure closure gs)"
    and i: "i < length gs0" and j: "j < length (params (gs0 ! i))"
    and absent: "grad (params (gs0 ! i) ! j) = None"
  shows "SGDl1_param lam momentum dampening grp (params (gs0 ! i) ! j) = (params (gs0 ! i) ! j, None) \<and>
         FW_param lmo kappa n (params (gs0 ! i) ! j) = (params (gs0 ! i) ! j, None) \<and>
         params (fst (SGDl1_step gs closure) ! i) ! j = params (gs0 ! i) ! j \<and>
         (\<exists>gs'. param_groups (fst (SGDFWl1_step \<lparr>k = n, param_groups = Some gs\<rparr> closure)) = Some gs' \<and>
                params (gs' ! i) ! j = params (gs0 ! i) ! j) \<and>
         (\<exists>gs'. param_groups (fst (SGDFWNuclear_step lmo \<lparr>k = n, param_groups = Some gs\<rparr> closure)) = Some gs' \<and>
                params (gs' ! i) ! j = params (gs0 ! i) ! j)"
proof -
  define P where "P p p' \<longleftrightarrow> (grad p = None \<longrightarrow> p' = p)" for p p' :: param
  have refl: "P p p" for p by (simp add: P_def)
  have sgd: "P p (fst (SGDl1_param lam' momentum' dampening' g p))" for lam' momentum' dampening' g p
    by (simp add: P_def SGDl1_param_absent)
  have fw: "P p (fst (FW_param lmo' kappa' n' p))" for lmo' kappa' n' p
    by (simp add: P_def FW_param_absent)
  have opt: "param_groups \<lparr>k = n, param_groups = Some gs\<rparr> = Some gs" by simp
  from i j gs0 have i': "i < length (fst (call_closure closure gs))"
    and j': "j < length (params (fst (call_closure closure gs) ! i))" by simp_all
  have a: "P (params (fst (call_closure closure gs) ! i) ! j) (params (fst (SGDl1_step gs closure) ! i) ! j)"
    using refl sgd i' j' by (rule SGDl1_step_frame)
  have b: "\<exists>gs'. param_groups (fst (FW_step LMO_l1 \<lparr>k = n, param_groups = Some gs\<rparr> closure)) = Some gs' \<and>
             P (params (fst (call_closure closure gs) ! i) ! j) (params (gs' ! i) ! j)"
    using refl fw opt i' j' by (rule FW_step_frame)
  have c: "\<exists>gs'. param_groups (fst (FW_step lmo \<lparr>k = n, param_groups = Some gs\<rparr> closure)) = Some gs' \<and>
             P (params (fst (call_closure closure gs) ! i) ! j) (params (gs' ! i) ! j)"
    using refl fw opt i' j' by (rule FW_step_frame)
  from a b c absent gs0 show ?thesis
    by (simp add: P_def SGDl1_param_absent FW_param_absent SGDFWl1_step_def SGDFWNuclear_step_def)
qed

theorem absent_gradient_is_skipped_witness:
  "(let gs = [\<lparr>params = [\<lparr>data = [1, 2], grad = Some [1, 1], momentum_buffer = None\<rparr>,
                         \<lparr>data = [3], grad = None, momentum_buffer = None\<rparr>],
               hyper = [''lr'' \<mapsto> 1, ''l1'' \<mapsto> 1, ''momentum'' \<mapsto> 1, ''dampening'' \<mapsto> 0, ''kappa_l1'' \<mapsto> 1]\<rparr>];
        p = \<lparr>data = [3], grad = None, momentum_buffer = None\<rparr>
    in grad (params (gs ! 0) ! 1) = None \<and>
       params (fst (SGDl1_step gs (None :: real closure option)) ! 0) ! 1 = p \<and>
       snd (SGDl1_step gs (None :: real closure option)) = Inr None \<and>
       (\<exists>gs'. param_groups (fst (SGDFWl1_step \<lparr>k = 0, param_groups = Some gs\<rparr> (None :: real closure option))) = Some gs' \<and>
              params (gs' ! 0) ! 1 = p) \<and>
       snd (SGDFWl1_step \<lparr>k = 0, param_groups = Some gs\<rparr> (None :: real closure option)) = Inr None)"
proof -
  let ?gs = "[\<lparr>params = [\<lparr>data = [1, 2], grad = Some [1, 1], momentum_buffer = None\<rparr>,
                         \<lparr>data = [3], grad = None, momentum_buffer = None\<rparr>],
               hyper = [''lr'' \<mapsto> 1, ''l1'' \<mapsto> 1, ''momentum'' \<mapsto> 1, ''dampening'' \<mapsto> 0, ''kappa_l1'' \<mapsto> 1]\<rparr>]"
  have r1: "snd (SGDl1_step ?gs (None :: real closure option)) = Inr None"
    by (simp add: SGDl1_step_ready call_closure_def SGDl1_ready_def shapes_ok_def)
  have r2: "snd (SGDFWl1_step \<lparr>k = 0, param_groups = Some ?gs\<rparr> (None :: real closure option)) = Inr None"
    by (simp add: SGDFWl1_step_def FW_step_ready call_closure_def FW_ready_def FW_param_ready_def LMO_l1_def)
  from absent_gradient_is_skipped
    [where closure = "None :: real closure option" and gs = ?gs and ?gs0.0 = ?gs and i = 0 and j = 1
       and n = 0 and lmo = LMO_l1]
    r1 r2
  show ?thesis by (simp add: call_closure_def Let_def)
qed

section \<open>Gradients\<close>

text \<open>
  C7, as stated, fails for \<^verbatim>\<open>SGDl1\<close>: \<^verbatim>\<open>d_p = p.grad.data\<close> is the gradient tensor itself and
  \<^verbatim>\<open>d_p.add_(lam, torch.sign(p.data))\<close> adds into it. After a step with \<open>lam = 1/2\<close> on
  the value \<open>[1, 0, -2]\<close> the gradient \<open>[1/2, 1/2, 1/2]\<close> has become \<open>[1, 1/2, 0]\<close>.
\<close>

theorem SGDl1_step_changes_gradient:
  "(let gs = [\<lparr>params = [\<lparr>data = [1, 0, - 2], grad = Some [1/2, 1/2, 1/2], momentum_buffer = None\<rparr>],
               hyper = [''lr'' \<mapsto> 1/10, ''l1'' \<mapsto> 1/2, ''momentum'' \<mapsto> 0, ''dampening'' \<mapsto> 0]\<rparr>]
    in snd (SGDl1_step gs (None :: real closure option)) = Inr None \<and>
       grad (params (gs ! 0) ! 0) = Some [1/2, 1/2, 1/2] \<and>
       grad (params (fst (SGDl1_step gs (None :: real closure option)) ! 0) ! 0) = Some [1, 1/2, 0] \<and>
       grad (params (fst (SGDl1_step gs (None :: real closure option)) ! 0) ! 0) \<noteq> grad (params (gs ! 0) ! 0))"
  by (simp add: SGDl1_step_ready call_closure_def SGDl1_ready_def shapes_ok_def SGDl1_group_def
        SGDl1_param_def SGDl1_descend_def Let_def add_t_def sign_t_def)

text \<open>
  C7, amended. The two Frank-Wolfe classes only read gradients: after a call of their
  \<^verbatim>\<open>step\<close>, returning or raising, every gradient is what it was when the loops started.
  A call of \<^verbatim>\<open>SGDl1.step\<close> that finds its keys replaces the gradient \<open>g\<close> of every parameter
  that has one by the effective gradient \<open>g + lam * sgn x\<close> and leaves an absent gradient
  absent.
\<close>

theorem gradients_after_step:
  "(i < length (fst (call_closure closure gs)) \<and> j < length (params (fst (call_closure closure gs) ! i)) \<longrightarrow>
      (\<exists>gs'. param_groups (fst (SGDFWl1_step \<lparr>k = n, param_groups = Some gs\<rparr> closure)) = Some gs' \<and>
             grad (params (gs' ! i) ! j) = grad (params (fst (call_closure closure gs) ! i) ! j)) \<and>
      (\<exists>gs'. param_groups (fst (SGDFWNuclear_step lmo \<lparr>k = n, param_groups = Some gs\<rparr> closure)) = Some gs' \<and>
             grad (params (gs' ! i) ! j) = grad (params (fst (call_closure closure gs) ! i) ! j))) \<and>
   (call_closure closure gs = (gs0, Inr loss) \<and> SGDl1_ready gs0 \<and>
    i < length gs0 \<and> j < length (params (gs0 ! i)) \<and> hyper (gs0 ! i) ''l1'' = Some lam \<longrightarrow>
      (\<exists>gs'. SGDl1_step gs closure = (gs', Inr loss) \<and>
             grad (params (gs' ! i) ! j) =
               map_option (effective_gradient lam (data (params (gs0 ! i) ! j)))
                 (grad (params (gs0 ! i) ! j))))"
proof (intro conjI impI)
  assume ij: "i < length (fst (call_closure closure gs)) \<and>
              j < length (params (fst (call_closure closure gs) ! i))"
  define P where "P p p' \<longleftrightarrow> grad p' = grad p" for p p' :: param
  have refl: "P p p" for p by (simp add: P_def)
  have fw: "P p (fst (FW_param lmo' kappa' n' p))" for lmo' kappa' n' p
    by (simp add: P_def FW_param_grad)
  have opt: "param_groups \<lparr>k = n, param_groups = Some gs\<rparr> = Some gs" by simp
  from ij have i': "i < length (fst (call_closure closure gs))"
    and j': "j < length (params (fst (call_closure closure gs) ! i))" by simp_all
  have "\<exists>gs'. param_groups (fst (FW_step LMO_l1 \<lparr>k = n, param_groups = Some gs\<rparr> closure)) = Some gs' \<and>
             P (params (fst (call_closure closure gs) ! i) ! j) (params (gs' ! i) ! j)"
    using refl fw opt i' j' by (rule FW_step_frame)
  then show "\<exists>gs'. param_groups (fst (SGDFWl1_step \<lparr>k = n, param_groups = Some gs\<rparr> closure)) = Some gs' \<and>
             grad (params (gs' ! i) ! j) = grad (params (fst (call_closure closure gs) ! i) ! j)"
    by (simp add: P_def SGDFWl1_step_def)
  have "\<exists>gs'. param_groups (fst (FW_step lmo \<lparr>k = n, param_groups = Some gs\<rparr> closure)) = Some gs' \<and>
             P (params (fst (call_closure closure gs) ! i) ! j) (params (gs' ! i) ! j)"
    using refl fw opt i' j' by (rule FW_step_frame)
  then show "\<exists>gs'. param_groups (fst (SGDFWNuclear_step lmo \<lparr>k = n, param_groups = Some gs\<rparr> closure)) = Some gs' \<and>
             grad (params (gs' ! i) ! j) = grad (params (fst (call_closure closure gs) ! i) ! j)"
    by (simp add: P_def SGDFWNuclear_step_def)
next
  assume h: "call_closure closure gs = (gs0, Inr loss) \<and> SGDl1_ready gs0 \<and>
    i < length gs0 \<and> j < length (params (gs0 ! i)) \<and> hyper (gs0 ! i) ''l1'' = Some lam"
  then have cl: "call_closure closure gs = (gs0, Inr loss)" and ready: "SGDl1_ready gs0"
    and i: "i < length gs0" and j: "j < length (params (gs0 ! i))"
    and lam: "hyper (gs0 ! i) ''l1'' = Some lam" by simp_all
  let ?p = "params (gs0 ! i) ! j"
  from i have mem: "gs0 ! i \<in> set gs0" by simp
  from SGDl1_ready_group [OF ready mem] obtain momentum dampening lr where
    mom: "hyper (gs0 ! i) ''momentum'' = Some momentum"
    and damp: "hyper (gs0 ! i) ''dampening'' = Some dampening"
    and lr: "hyper (gs0 ! i) ''lr'' = Some lr" by blast
  from SGDl1_ready_shapes [OF ready i j] have sh: "shapes_ok ?p" by simp
  from SGDl1_step_param [OF cl ready i j lam mom damp] obtain gs' where
    step: "SGDl1_step gs closure = (gs', Inr loss)"
    and p': "params (gs' ! i) ! j = fst (SGDl1_param lam momentum dampening (gs0 ! i) ?p)" by blast
  have "grad (fst (SGDl1_param lam momentum dampening (gs0 ! i) ?p)) =
          map_option (effective_gradient lam (data ?p)) (grad ?p)"
  proof (cases "grad ?p")
    case None
    then show ?thesis by (simp add: SGDl1_param_absent)
  next
    case (Some g)
    with sh have len: "length g = length (data ?p)" by (simp add: shapes_ok_def)
    show ?thesis
    proof (cases "momentum = 0")
      case True
      with SGDl1_param_plain [OF Some len lr, of lam dampening] Some show ?thesis by simp
    next
      case False
      show ?thesis
      proof (cases "momentum_buffer ?p")
        case None
        with SGDl1_param_first [OF Some len lr False None, of lam dampening] Some show ?thesis by simp
      next
        case (Some b)
        with sh have blen: "length b = length (data ?p)" by (simp add: shapes_ok_def)
        from SGDl1_param_next [OF \<open>grad ?p = Some g\<close> len lr False Some blen, of lam dampening]
          \<open>grad ?p = Some g\<close> show ?thesis by simp
      qed
    qed
  qed
  with step p' show "\<exists>gs'. SGDl1_step gs closure = (gs', Inr loss) \<and>
             grad (params (gs' ! i) ! j) =
               map_option (effective_gradient lam (data (params (gs0 ! i) ! j)))
                 (grad (params (gs0 ! i) ! j))" by simp
qed

theorem gradients_after_step_witness:
  "(let gs = [\<lparr>params = [\<lparr>data = [1, 0, - 2], grad = Some [1/2, 1/2, 1/2], momentum_buffer = None\<rparr>],
               hyper = [''lr'' \<mapsto> 1/10, ''l1'' \<mapsto> 1/2, ''momentum'' \<mapsto> 0, ''dampening'' \<mapsto> 0,
                        ''kappa_l1'' \<mapsto> 3]\<rparr>]
    in (\<exists>gs'. param_groups (fst (SGDFWl1_step \<lparr>k = 0, param_groups = Some gs\<rparr> (None :: real closure option))) = Some gs' \<and>
              data (params (gs' ! 0) ! 0) = [- 3, 0, 0] \<and>
              grad (params (gs' ! 0) ! 0) = Some [1/2, 1/2, 1/2]) \<and>
       (\<exists>gs'. SGDl1_step gs (None :: real closure option) = (gs', Inr None) \<and>
              grad (params (gs' ! 0) ! 0) = Some [1, 1/2, 0]))"
proof -
  let ?gs = "[\<lparr>params = [\<lparr>data = [1, 0, - 2], grad = Some [1/2, 1/2, 1/2], momentum_buffer = None\<rparr>],
               hyper = [''lr'' \<mapsto> 1/10, ''l1'' \<mapsto> 1/2, ''momentum'' \<mapsto> 0, ''dampening'' \<mapsto> 0,
                        ''kappa_l1'' \<mapsto> 3]\<rparr>]"
  have d: "\<forall>gs'. param_groups (fst (SGDFWl1_step \<lparr>k = 0, param_groups = Some ?gs\<rparr> (None :: real closure option))) = Some gs'
             \<longrightarrow> data (params (gs' ! 0) ! 0) = [- 3, 0, 0]"
    by (simp add: SGDFWl1_step_def FW_step_ready call_closure_def FW_ready_def FW_param_ready_def
          LMO_l1_def FW_group_def FW_param_def Let_def add_t_def sub_t_def mul_t_def)
  have r: "SGDl1_ready ?gs" by (simp add: SGDl1_ready_def shapes_ok_def)
  note th = gradients_after_step
    [where closure = "None :: real closure option" and gs = ?gs and ?gs0.0 = ?gs and i = 0 and j = 0
       and n = 0 and lam = "1/2" and loss = None and lmo = LMO_l1]
  from th obtain gs1 where
    g1: "param_groups (fst (SGDFWl1_step \<lparr>k = 0, param_groups = Some ?gs\<rparr> (None :: real closure option))) = Some gs1"
    and g1': "grad (params (gs1 ! 0) ! 0) = Some [1/2, 1/2, 1/2]"
    by (auto simp add: call_closure_def)
  from d g1 have d1: "data (params (gs1 ! 0) ! 0) = [- 3, 0, 0]" by blast
  from th r obtain gs2 where
    g2: "SGDl1_step ?gs (None :: real closure option) = (gs2, Inr None)"
    and g2': "grad (params (gs2 ! 0) ! 0) = Some [1, 1/2, 0]"
    by (auto simp add: call_closure_def effective_gradient_def)
  from g1 g1' d1 g2 g2' show ?thesis unfolding Let_def by blast
qed

section \<open>The closure\<close>

text \<open>
  C9. In a call of \<^verbatim>\<open>step\<close> of each class (the two Frank-Wolfe classes share \<open>FW_step\<close>):
  a closure that returns \<open>l\<close> runs once, first: the call is then the call without closure
  on the state the closure has left, with \<open>l\<close> in the place of the absent loss, so it
  returns \<open>l\<close> whenever it returns, and it does return \<open>l\<close> on groups that carry the keys
  the loops read. A closure that raises ends the call before any parameter is processed.
  Without a closure the call returns the absent value \<open>None\<close> whenever it returns, and
  it does on groups that carry the keys.
\<close>

theorem closure_runs_once_and_loss_is_returned:
  "(c gs = (gs0, Inr l) \<longrightarrow>
      SGDl1_step gs (Some c) =
        (fst (SGDl1_step gs0 (None :: 'l closure option)),
         case snd (SGDl1_step gs0 (None :: 'l closure option)) of
           Inl e \<Rightarrow> Inl e | Inr v \<Rightarrow> Inr (Some l)) \<and>
      FW_step lmo \<lparr>k = n, param_groups = Some gs\<rparr> (Some c) =
        (fst (FW_step lmo \<lparr>k = n, param_groups = Some gs0\<rparr> (None :: 'l closure option)),
         case snd (FW_step lmo \<lparr>k = n, param_groups = Some gs0\<rparr> (None :: 'l closure option)) of
           Inl e \<Rightarrow> Inl e | Inr v \<Rightarrow> Inr (Some l)) \<and>
      (SGDl1_ready gs0 \<longrightarrow> snd (SGDl1_step gs (Some c)) = Inr (Some l)) \<and>
      (FW_ready lmo gs0 \<longrightarrow> snd (FW_step lmo \<lparr>k = n, param_groups = Some gs\<rparr> (Some c)) = Inr (Some l))) \<and>
   (c gs = (gs0, Inl e) \<longrightarrow>
      SGDl1_step gs (Some c) = (gs0, Inl e) \<and>
      FW_step lmo \<lparr>k = n, param_groups = Some gs\<rparr> (Some c) = (\<lparr>k = n, param_groups = Some gs0\<rparr>, Inl e)) \<and>
   (case snd (SGDl1_step gs (None :: 'l closure option)) of Inl e \<Rightarrow> True | Inr v \<Rightarrow> v = None) \<and>
   (case snd (FW_step lmo \<lparr>k = n, param_groups = Some gs\<rparr> (None :: 'l closure option)) of
      Inl e \<Rightarrow> True | Inr v \<Rightarrow> v = None) \<and>
   (SGDl1_ready gs \<longrightarrow> snd (SGDl1_step gs (None :: 'l closure option)) = Inr None) \<and>
   (FW_ready lmo gs \<longrightarrow>
      snd (FW_step lmo \<lparr>k = n, param_groups = Some gs\<rparr> (None :: 'l closure option)) = Inr None)"
proof (intro conjI impI)
  assume c: "c gs = (gs0, Inr l)"
  show "SGDl1_step gs (Some c) =
        (fst (SGDl1_step gs0 (None :: 'l closure option)),
         case snd (SGDl1_step gs0 (None :: 'l closure option)) of
           Inl e \<Rightarrow> Inl e | Inr v \<Rightarrow> Inr (Some l))"
    using c by (simp add: SGDl1_step_def call_closure_def split: prod.splits option.splits)
  show "FW_step lmo \<lparr>k = n, param_groups = Some gs\<rparr> (Some c) =
        (fst (FW_step lmo \<lparr>k = n, param_groups = Some gs0\<rparr> (None :: 'l closure option)),
         case snd (FW_step lmo \<lparr>k = n, param_groups = Some gs0\<rparr> (None :: 'l closure option)) of
           Inl e \<Rightarrow> Inl e | Inr v \<Rightarrow> Inr (Some l))"
    using c by (simp add: FW_step_def call_closure_def split: prod.splits option.splits)
  have cc: "call_closure (Some c) gs = (gs0, Inr (Some l))"
    using c by (rule call_closure_Some_returns)
  {
    assume "SGDl1_ready gs0"
    with cc show "snd (SGDl1_step gs (Some c)) = Inr (Some l)"
      by (simp add: SGDl1_step_ready)
  }
  {
    assume "FW_ready lmo gs0"
    with cc show "snd (FW_step lmo \<lparr>k = n, param_groups = Some gs\<rparr> (Some c)) = Inr (Some l)"
      by (simp add: FW_step_ready)
  }
next
  assume c: "c gs = (gs0, Inl e)"
  show "SGDl1_step gs (Some c) = (gs0, Inl e)"
    using c by (simp add: SGDl1_step_def call_closure_def)
  show "FW_step lmo \<lparr>k = n, param_groups = Some gs\<rparr> (Some c) = (\<lparr>k = n, param_groups = Some gs0\<rparr>, Inl e)"
    using c by (simp add: FW_step_def call_closure_def)
next
  show "case snd (SGDl1_step gs (None :: 'l closure option)) of Inl e \<Rightarrow> True | Inr v \<Rightarrow> v = None"
    by (simp add: SGDl1_step_def call_closure_def split: prod.splits option.splits sum.splits)
  show "case snd (FW_step lmo \<lparr>k = n, param_groups = Some gs\<rparr> (None :: 'l closure option)) of
      Inl e \<Rightarrow> True | Inr v \<Rightarrow> v = None"
    by (simp add: FW_step_def call_closure_def split: prod.splits option.splits sum.splits)
next
  assume "SGDl1_ready gs"
  then show "snd (SGDl1_step gs (None :: 'l closure option)) = Inr None"
    by (simp add: SGDl1_step_ready call_closure_None)
next
  assume "FW_ready lmo gs"
  then show "snd (FW_step lmo \<lparr>k = n, param_groups = Some gs\<rparr> (None :: 'l closure option)) = Inr None"
    by (simp add: FW_step_ready call_closure_None)
qed

theorem closure_runs_once_and_loss_is_returned_witness:
  "(let gs = [\<lparr>params = [\<lparr>data = [1, 0], grad = None, momentum_buffer = None\<rparr>],
               hyper = [''lr'' \<mapsto> 1, ''l1'' \<mapsto> 1, ''momentum'' \<mapsto> 0, ''dampening'' \<mapsto> 0, ''kappa_l1'' \<mapsto> 1]\<rparr>];
        gs0 = [\<lparr>params = [\<lparr>data = [1, 0], grad = Some [2, 3], momentum_buffer = None\<rparr>],
               hyper = [''lr'' \<mapsto> 1, ''l1'' \<mapsto> 1, ''momentum'' \<mapsto> 0, ''dampening'' \<mapsto> 0, ''kappa_l1'' \<mapsto> 1]\<rparr>];
        c = (\<lambda>gs. (gs0, Inr (7 :: real)))
    in SGDl1_step gs (Some c) = (fst (SGDl1_step gs0 (None :: real closure option)), Inr (Some 7)) \<and>
       FW_step LMO_l1 \<lparr>k = 0, param_groups = Some gs\<rparr> (Some c) =
         (fst (FW_step LMO_l1 \<lparr>k = 0, param_groups = Some gs0\<rparr> (None :: real closure option)), Inr (Some 7)) \<and>
       snd (SGDl1_step gs (None :: real closure option)) = Inr None \<and>
       snd (FW_step LMO_l1 \<lparr>k = 0, param_groups = Some gs\<rparr> (None :: real closure option)) = Inr None)"
proof -
  let ?start = "[\<lparr>params = [\<lparr>data = [1, 0], grad = None, momentum_buffer = None\<rparr>],
               hyper = [''lr'' \<mapsto> 1, ''l1'' \<mapsto> 1, ''momentum'' \<mapsto> 0, ''dampening'' \<mapsto> 0, ''kappa_l1'' \<mapsto> 1]\<rparr>]"
  let ?after = "[\<lparr>params = [\<lparr>data = [1, 0], grad = Some [2, 3], momentum_buffer = None\<rparr>],
               hyper = [''lr'' \<mapsto> 1, ''l1'' \<mapsto> 1, ''momentum'' \<mapsto> 0, ''dampening'' \<mapsto> 0, ''kappa_l1'' \<mapsto> 1]\<rparr>]"
  let ?c = "\<lambda>gs :: param_group list. (?after, Inr (7 :: real) :: error + real)"
  have r: "SGDl1_ready ?start" "SGDl1_ready ?after" by (simp_all add: SGDl1_ready_def shapes_ok_def)
  have f: "FW_ready LMO_l1 ?start" "FW_ready LMO_l1 ?after"
    by (simp_all add: FW_ready_def FW_param_ready_def LMO_l1_def)
  have r0: "snd (SGDl1_step ?after (None :: real closure option)) = Inr None"
    using r(2) by (simp add: SGDl1_step_ready call_closure_None)
  have f0: "snd (FW_step LMO_l1 \<lparr>k = 0, param_groups = Some ?after\<rparr> (None :: real closure option)) = Inr None"
    using f(2) by (simp add: FW_step_ready call_closure_None)
  note th = closure_runs_once_and_loss_is_returned
    [where c = ?c and gs = ?start and ?gs0.0 = ?after and l = 7 and lmo = LMO_l1 and n = 0]
  have cg: "?c ?start = (?after, Inr 7)" by simp
  from th cg have a0: "SGDl1_step ?start (Some ?c) =
        (fst (SGDl1_step ?after (None :: real closure option)),
         case snd (SGDl1_step ?after (None :: real closure option)) of
           Inl e \<Rightarrow> Inl e | Inr v \<Rightarrow> Inr (Some 7))" by blast
  from th cg have b0: "FW_step LMO_l1 \<lparr>k = 0, param_groups = Some ?start\<rparr> (Some ?c) =
        (fst (FW_step LMO_l1 \<lparr>k = 0, param_groups = Some ?after\<rparr> (None :: real closure option)),
         case snd (FW_step LMO_l1 \<lparr>k = 0, param_groups = Some ?after\<rparr> (None :: real closure option)) of
           Inl e \<Rightarrow> Inl e | Inr v \<Rightarrow> Inr (Some 7))" by blast
  have a: "SGDl1_step ?start (Some ?c) = (fst (SGDl1_step ?after (None :: real closure option)), Inr (Some 7))"
    by (simp only: a0 r0 sum.case)
  have b: "FW_step LMO_l1 \<lparr>k = 0, param_groups = Some ?start\<rparr> (Some ?c) =
         (fst (FW_step LMO_l1 \<lparr>k = 0, param_groups = Some ?after\<rparr> (None :: real closure option)), Inr (Some 7))"
    by (simp only: b0 f0 sum.case)
  from th r(1) have c: "snd (SGDl1_step ?start (None :: real closure option)) = Inr None" by blast
  from th f(1) have d: "snd (FW_step LMO_l1 \<lparr>k = 0, param_groups = Some ?start\<rparr> (None :: real closure option)) = Inr None"
    by blast
  from a b c d show ?thesis unfolding Let_def by blast
qed

section \<open>Construction\<close>

text \<open>
  C6. Each of the three constructors fails on its assertion when its coefficient is not
  positive: \<^verbatim>\<open>SGDl1\<close> for \<open>lambda_l1 \<le> 0\<close>, the two Frank-Wolfe classes for \<open>kappa_l1 \<le> 0\<close>.
  The result is the assertion's error for every argument \<open>ps\<close>: the parameters are not
  looked at, none is changed, and no optimizer exists on which a step could run.
\<close>

theorem constructors_reject_nonpositive:
  "(lambda_l1 \<le> 0 \<longrightarrow> SGDl1_init ps lr lambda_l1 = Inl AssertionError) \<and>
   (kappa_l1 \<le> 0 \<longrightarrow> SGDFWl1_init ps kappa_l1 = Inl AssertionError \<and>
                       SGDFWNuclear_init ps kappa_l1 = Inl AssertionError)"
  by (simp add: SGDl1_init_def SGDFWl1_init_def SGDFWNuclear_init_def)

theorem constructors_reject_nonpositive_witness:
  "SGDl1_init (Tensors [\<lparr>data = [1], grad = None, momentum_buffer = None\<rparr>]) (1/10) 0 = Inl AssertionError \<and>
   SGDFWl1_init (Tensors [\<lparr>data = [1], grad = None, momentum_buffer = None\<rparr>]) (- 1) = Inl AssertionError \<and>
   SGDFWNuclear_init (Tensors [\<lparr>data = [1], grad = None, momentum_buffer = None\<rparr>]) (- 1) = Inl AssertionError"
  using constructors_reject_nonpositive
    [of 0 "Tensors [\<lparr>data = [1], grad = None, momentum_buffer = None\<rparr>]" "1/10" "- 1"]
  by simp

text \<open>
  C10. For every argument \<open>ps\<close> and every positive \<open>kappa_l1\<close> the constructor of
  \<^verbatim>\<open>SGDFWNuclear\<close> raises: the assertion passes, and \<^verbatim>\<open>super(Optimizer, self).__init__\<close> is
  \<^verbatim>\<open>object.__init__\<close> with two extra arguments, a \<open>TypeError\<close>. No instance is returned.
\<close>

theorem SGDFWNuclear_init_raises:
  "0 < kappa_l1 \<Longrightarrow> SGDFWNuclear_init ps kappa_l1 = Inl TypeError"
  by (simp add: SGDFWNuclear_init_def object_init_def)

theorem SGDFWNuclear_init_raises_witness:
  "SGDFWNuclear_init (Tensors [\<lparr>data = [1, 2, 3, 4], grad = None, momentum_buffer = None\<rparr>]) 1 = Inl TypeError"
  using SGDFWNuclear_init_raises
    [of 1 "Tensors [\<lparr>data = [1, 2, 3, 4], grad = None, momentum_buffer = None\<rparr>]"]
  by simp

section \<open>Optimizers built from a plain list of parameters\<close>

text \<open>
  C1 fails on the code. \<^verbatim>\<open>SGDFWl1.__init__\<close> stores the radius under the key \<^verbatim>\<open>'kappa'\<close>
  and \<^verbatim>\<open>step\<close> reads \<^verbatim>\<open>group['kappa_l1']\<close>. For the optimizer built by
  \<^verbatim>\<open>SGDFWl1([p], kappa_l1=1)\<close> with \<open>p = [0, 1/2]\<close> and gradient \<open>[1, -3]\<close>, the call
  \<^verbatim>\<open>step()\<close> raises \<open>KeyError\<close> and leaves \<open>p\<close> as it is; the update of the claim, with
  \<open>gamma = 2 / (0 + 2)\<close> and the oracle's point \<open>[0, 1]\<close>, is \<open>[0, 1]\<close>.
\<close>

theorem SGDFWl1_step_after_plain_init:
  "(let p = \<lparr>data = [0, 1/2], grad = Some [1, - 3], momentum_buffer = None\<rparr>;
        opt = \<lparr>k = 0, param_groups = Some [\<lparr>params = [p], hyper = [''kappa'' \<mapsto> 1]\<rparr>]\<rparr>
    in SGDFWl1_init (Tensors [p]) 1 = Inr opt \<and>
       SGDFWl1_step opt (None :: real closure option) = (opt, Inl (KeyError ''kappa_l1'')) \<and>
       LMO_l1 [1, - 3] 1 = Inr [0, 1] \<and>
       convex_step (2 / (real (k opt) + 2)) (data p) [0, 1] = [0, 1] \<and>
       data p \<noteq> [0, 1])"
  by (simp add: SGDFWl1_init_def Optimizer_init_def SGDFWl1_step_def FW_step_def call_closure_def
        FW_group_def LMO_l1_def convex_step_def Let_def)

text \<open>
  C3 fails on the code for the same reason: the first call of \<^verbatim>\<open>step\<close> on that optimizer
  raises before \<^verbatim>\<open>self.k += 1\<close>, and so does every later call; after two calls the
  counter is 0. \<^verbatim>\<open>SGDFWNuclear\<close> has no counter to speak of: its constructor raises.
\<close>

theorem SGDFWl1_counter_after_plain_init:
  "(let p = \<lparr>data = [0, 1/2], grad = Some [1, - 3], momentum_buffer = None\<rparr>;
        opt = \<lparr>k = 0, param_groups = Some [\<lparr>params = [p], hyper = [''kappa'' \<mapsto> 1]\<rparr>]\<rparr>
    in SGDFWl1_init (Tensors [p]) 1 = Inr opt \<and>
       snd (SGDFWl1_step opt (None :: real closure option)) = Inl (KeyError ''kappa_l1'') \<and>
       k (fst (SGDFWl1_step opt (None :: real closure option))) = 0 \<and>
       k (FW_run LMO_l1 [\<lambda>i j. Some [1, - 3], \<lambda>i j. Some [2, 1]] opt) = 0 \<and>
       SGDFWNuclear_init (Tensors [p]) 1 = Inl TypeError)"
  by (simp add: SGDFWl1_init_def Optimizer_init_def SGDFWl1_step_def FW_step_def call_closure_def
        FW_group_def Let_def load_grads_def SGDFWNuclear_init_def object_init_def)

end
